theory Spec2Isabelle
  imports Complex_Main "HOL-Library.List_Lexorder" "HOL-Library.Char_ord"
begin

section \<open>The timesheet store\<close>

text \<open>
  The program keeps everything in one SQLite file, \<^verbatim>\<open>timesheets.db\<close>, with three tables
  created by \<^verbatim>\<open>init_db\<close>. A table is the list of its rows in ascending rowid order, which
  is the order of the table's B-tree and so the order in which a \<^verbatim>\<open>SELECT\<close> without
  \<^verbatim>\<open>ORDER BY\<close> scans a table that has no secondary index to scan instead. A table that
  has not been created yet is \<open>None\<close>.

  Columns declared \<^verbatim>\<open>NOT NULL\<close> hold plain values: the program only ever binds strings,
  integers and floats to them. The two nullable columns are options. \<^verbatim>\<open>hours\<close> is a
  \<^verbatim>\<open>REAL\<close>; the program stores and compares it and never computes with it, so it is a
  \<open>real\<close> here. Rowids are unbounded integers; SQLite's are 64 bits wide and the engine
  looks for an unused one at random once \<open>2^63 - 1\<close> is taken, which is not modelled.
\<close>

record user_row =
  u_id :: int
  username :: string
  role :: string

record project_code_row =
  pc_id :: int
  code :: string
  description :: "string option"

record timesheet_row =
  ts_id :: int
  user_id :: int
  project_code_id :: int
  date :: string
  hours :: real
  status :: string
  comments :: "string option"

record store =
  users :: "user_row list option"
  project_codes :: "project_code_row list option"
  timesheets :: "timesheet_row list option"

text \<open>The exceptions the program can meet: those of \<^verbatim>\<open>sqlite3\<close> and Python's own.\<close>

datatype error =
  IntegrityError \<comment> \<open>a CHECK or UNIQUE constraint failed\<close>
| OperationalError \<comment> \<open>no such table\<close>
| InterfaceError \<comment> \<open>a bound parameter of a type sqlite3 does not support (\<^verbatim>\<open>ProgrammingError\<close> in later Pythons)\<close>
| IndexError \<comment> \<open>\<^verbatim>\<open>rows[0]\<close> on an empty result\<close>
| KeyError \<comment> \<open>a dictionary lookup of a missing key\<close>

definition empty_store :: store where
  "empty_store = \<lparr>users = None, project_codes = None, timesheets = None\<rparr>"

subsection \<open>Schema\<close>

text \<open>
  \<^verbatim>\<open>init_db\<close> (lines 20-52): three \<^verbatim>\<open>CREATE TABLE IF NOT EXISTS\<close>. A table that exists is
  left alone, a missing one is created empty.
\<close>

definition create_table_if_not_exists :: "'r list option \<Rightarrow> 'r list option" where
  "create_table_if_not_exists t = (case t of None \<Rightarrow> Some [] | Some rows \<Rightarrow> Some rows)"

definition init_db :: "store \<Rightarrow> store" where
  "init_db st =
     st\<lparr>users := create_table_if_not_exists (users st),
        project_codes := create_table_if_not_exists (project_codes st),
        timesheets := create_table_if_not_exists (timesheets st)\<rparr>"

text \<open>
  The constraints of the schema. The two \<^verbatim>\<open>FOREIGN KEY\<close> clauses are not here: SQLite
  enforces foreign keys only after \<^verbatim>\<open>PRAGMA foreign_keys = ON\<close>, which the program never
  issues.
\<close>

definition role_check :: "string \<Rightarrow> bool" where
  "role_check r = (r = ''user'' \<or> r = ''manager'')"

definition status_check :: "string \<Rightarrow> bool" where
  "status_check s = (s = ''pending'' \<or> s = ''approved'' \<or> s = ''rejected'')"

definition timesheet_check :: "timesheet_row \<Rightarrow> bool" where
  "timesheet_check r = (hours r \<ge> 0 \<and> status_check (status r))"

subsection \<open>Statements\<close>

text \<open>
  \<^verbatim>\<open>run_query\<close> (lines 66-74) opens a connection, executes one statement and commits. A
  statement that raises changes nothing. Each statement of the program is a function from
  the store to an error or to the new store with the cursor's \<^verbatim>\<open>rowcount\<close>; a query
  (\<^verbatim>\<open>fetch_query\<close>, lines 76-78) returns its rows.
\<close>

definition next_rowid :: "int list \<Rightarrow> int" where
  "next_rowid ids = (if ids = [] then 1 else Max (set ids) + 1)"

definition table_rows :: "'r list option \<Rightarrow> 'r list" where
  "table_rows t = (case t of None \<Rightarrow> [] | Some rows \<Rightarrow> rows)"

definition sql_select :: "('r \<Rightarrow> bool) \<Rightarrow> 'r list option \<Rightarrow> error + 'r list" where
  "sql_select wh t =
     (case t of None \<Rightarrow> Inl OperationalError | Some rows \<Rightarrow> Inr (filter wh rows))"

text \<open>
  \<^verbatim>\<open>UPDATE t SET ... WHERE ...\<close>: every row the condition selects is rewritten, and the
  constraints are checked on each rewritten row (\<open>ok\<close> gets the table as it was, for a
  \<^verbatim>\<open>UNIQUE\<close> column); one failure aborts the statement.
\<close>

definition sql_update ::
  "('r \<Rightarrow> bool) \<Rightarrow> ('r \<Rightarrow> 'r) \<Rightarrow> ('r list \<Rightarrow> 'r \<Rightarrow> bool) \<Rightarrow> 'r list option \<Rightarrow> error + 'r list \<times> nat"
where
  "sql_update wh upd ok t =
     (case t of
        None \<Rightarrow> Inl OperationalError
      | Some rows \<Rightarrow>
          if list_all (\<lambda>r. \<not> wh r \<or> ok rows (upd r)) rows
          then Inr (map (\<lambda>r. if wh r then upd r else r) rows, length (filter wh rows))
          else Inl IntegrityError)"

definition sql_delete :: "('r \<Rightarrow> bool) \<Rightarrow> 'r list option \<Rightarrow> error + 'r list \<times> nat" where
  "sql_delete wh t =
     (case t of
        None \<Rightarrow> Inl OperationalError
      | Some rows \<Rightarrow> Inr (filter (\<lambda>r. \<not> wh r) rows, length (filter wh rows)))"

definition sql_insert :: "bool \<Rightarrow> 'r \<Rightarrow> 'r list option \<Rightarrow> error + 'r list \<times> nat" where
  "sql_insert ok r t =
     (case t of
        None \<Rightarrow> Inl OperationalError
      | Some rows \<Rightarrow> if ok then Inr (rows @ [r], 1) else Inl IntegrityError)"

definition set_timesheets :: "store \<Rightarrow> error + timesheet_row list \<times> nat \<Rightarrow> error + store \<times> nat" where
  "set_timesheets st res =
     (case res of Inl e \<Rightarrow> Inl e | Inr (rows, n) \<Rightarrow> Inr (st\<lparr>timesheets := Some rows\<rparr>, n))"

definition set_project_codes ::
  "store \<Rightarrow> error + project_code_row list \<times> nat \<Rightarrow> error + store \<times> nat" where
  "set_project_codes st res =
     (case res of Inl e \<Rightarrow> Inl e | Inr (rows, n) \<Rightarrow> Inr (st\<lparr>project_codes := Some rows\<rparr>, n))"

definition set_users :: "store \<Rightarrow> error + user_row list \<times> nat \<Rightarrow> error + store \<times> nat" where
  "set_users st res =
     (case res of Inl e \<Rightarrow> Inl e | Inr (rows, n) \<Rightarrow> Inr (st\<lparr>users := Some rows\<rparr>, n))"

text \<open>
  Line 81: \<^verbatim>\<open>SELECT id, code FROM project_codes\<close>. The two columns are both in the index
  that \<^verbatim>\<open>UNIQUE\<close> puts on \<^verbatim>\<open>code\<close>, and SQLite answers the query from that index: the rows
  come in the order of their codes, compared byte by byte, not in the order of their ids.
  It is the one query of the program that an index answers in another order than the
  table's: \<^verbatim>\<open>timesheets\<close> has no index at all, and the other queries on \<^verbatim>\<open>users\<close> and
  \<^verbatim>\<open>project_codes\<close> either read a column that their index does not hold or select at
  most one row.
\<close>

definition get_project_codes :: "store \<Rightarrow> error + (int \<times> string) list" where
  "get_project_codes st =
     (case sql_select (\<lambda>r. True) (project_codes st) of
        Inl e \<Rightarrow> Inl e
      | Inr rows \<Rightarrow> Inr (map (\<lambda>r. (pc_id r, code r)) (sort_key code rows)))"

text \<open>
  Lines 87-89, \<^verbatim>\<open>authenticate\<close>:
  \<^verbatim>\<open>SELECT id FROM users WHERE username = ? AND role = ?\<close>, then
  \<^verbatim>\<open>user[0][0] if user else None\<close>.
\<close>

definition authenticate :: "store \<Rightarrow> string \<Rightarrow> string \<Rightarrow> error + int option" where
  "authenticate st name r =
     (case sql_select (\<lambda>u. username u = name \<and> role u = r) (users st) of
        Inl e \<Rightarrow> Inl e
      | Inr user \<Rightarrow> Inr (case user of [] \<Rightarrow> None | u # _ \<Rightarrow> Some (u_id u)))"

text \<open>
  Lines 115-116:
  \<^verbatim>\<open>INSERT INTO timesheets (user_id, project_code_id, date, hours, status) VALUES (?, ?, ?, ?, ?)\<close>.
  The rowid is chosen by SQLite, \<^verbatim>\<open>comments\<close> is not given and so is NULL.
\<close>

definition insert_timesheet ::
  "store \<Rightarrow> int \<Rightarrow> int \<Rightarrow> string \<Rightarrow> real \<Rightarrow> string \<Rightarrow> error + store \<times> nat" where
  "insert_timesheet st uid pcid d h s =
     (let r = \<lparr>ts_id = next_rowid (map ts_id (table_rows (timesheets st))),
               user_id = uid, project_code_id = pcid, date = d, hours = h, status = s,
               comments = None\<rparr>
      in set_timesheets st (sql_insert (timesheet_check r) r (timesheets st)))"

text \<open>
  Lines 132-133:
  \<^verbatim>\<open>UPDATE timesheets SET project_code_id = ?, date = ?, hours = ? WHERE id = ? AND user_id = ?\<close>.
\<close>

definition update_timesheet ::
  "store \<Rightarrow> int \<Rightarrow> string \<Rightarrow> real \<Rightarrow> int \<Rightarrow> int \<Rightarrow> error + store \<times> nat" where
  "update_timesheet st pcid d h tid uid =
     set_timesheets st
       (sql_update (\<lambda>r. ts_id r = tid \<and> user_id r = uid)
          (\<lambda>r. r\<lparr>project_code_id := pcid, date := d, hours := h\<rparr>)
          (\<lambda>rows. timesheet_check) (timesheets st))"

text \<open>Line 142: \<^verbatim>\<open>DELETE FROM timesheets WHERE id = ? AND user_id = ?\<close>.\<close>

definition delete_timesheet :: "store \<Rightarrow> int \<Rightarrow> int \<Rightarrow> error + store \<times> nat" where
  "delete_timesheet st tid uid =
     set_timesheets st (sql_delete (\<lambda>r. ts_id r = tid \<and> user_id r = uid) (timesheets st))"

text \<open>
  The three listings: line 149 \<^verbatim>\<open>SELECT * FROM timesheets WHERE user_id = ?\<close>, line 157
  \<^verbatim>\<open>SELECT id, date, status, comments FROM timesheets WHERE user_id = ? AND status = "rejected"\<close>,
  line 180 \<^verbatim>\<open>SELECT * FROM timesheets WHERE status = "pending"\<close>. A double-quoted word that
  names no column is read by SQLite as a string literal.
\<close>

definition select_timesheets :: "(timesheet_row \<Rightarrow> bool) \<Rightarrow> store \<Rightarrow> error + timesheet_row list" where
  "select_timesheets wh st = sql_select wh (timesheets st)"

definition view_timesheets :: "store \<Rightarrow> int \<Rightarrow> error + timesheet_row list" where
  "view_timesheets st uid = select_timesheets (\<lambda>r. user_id r = uid) st"

definition rejected_timesheets ::
  "store \<Rightarrow> int \<Rightarrow> error + (int \<times> string \<times> string \<times> string option) list" where
  "rejected_timesheets st uid =
     (case select_timesheets (\<lambda>r. user_id r = uid \<and> status r = ''rejected'') st of
        Inl e \<Rightarrow> Inl e
      | Inr rows \<Rightarrow> Inr (map (\<lambda>r. (ts_id r, date r, status r, comments r)) rows))"

definition pending_timesheets :: "store \<Rightarrow> error + timesheet_row list" where
  "pending_timesheets st = select_timesheets (\<lambda>r. status r = ''pending'') st"

text \<open>Line 165: \<^verbatim>\<open>UPDATE timesheets SET hours = ?, status = "pending" WHERE id = ?\<close>.\<close>

definition resubmit_timesheet :: "store \<Rightarrow> real \<Rightarrow> int \<Rightarrow> error + store \<times> nat" where
  "resubmit_timesheet st h tid =
     set_timesheets st
       (sql_update (\<lambda>r. ts_id r = tid) (\<lambda>r. r\<lparr>hours := h, status := ''pending''\<rparr>)
          (\<lambda>rows. timesheet_check) (timesheets st))"

text \<open>
  Line 189: \<^verbatim>\<open>UPDATE timesheets SET status = "approved", comments = ? WHERE id = ?\<close>, and
  line 192, the same with \<^verbatim>\<open>"rejected"\<close>.
\<close>

definition approve_timesheet :: "store \<Rightarrow> string \<Rightarrow> int \<Rightarrow> error + store \<times> nat" where
  "approve_timesheet st c tid =
     set_timesheets st
       (sql_update (\<lambda>r. ts_id r = tid) (\<lambda>r. r\<lparr>status := ''approved'', comments := Some c\<rparr>)
          (\<lambda>rows. timesheet_check) (timesheets st))"

definition reject_timesheet :: "store \<Rightarrow> string \<Rightarrow> int \<Rightarrow> error + store \<times> nat" where
  "reject_timesheet st c tid =
     set_timesheets st
       (sql_update (\<lambda>r. ts_id r = tid) (\<lambda>r. r\<lparr>status := ''rejected'', comments := Some c\<rparr>)
          (\<lambda>rows. timesheet_check) (timesheets st))"

text \<open>
  Line 131: \<^verbatim>\<open>SELECT id FROM project_codes WHERE code = ?\<close>. The bound value is whatever
  the caller passes: a string, Python's \<^verbatim>\<open>None\<close> (NULL, which equals nothing), or a tuple,
  which \<^verbatim>\<open>sqlite3\<close> refuses to bind.
\<close>

datatype param = PNone | PText string | PTuple int string

definition select_project_code_id :: "store \<Rightarrow> param \<Rightarrow> error + int list" where
  "select_project_code_id st p =
     (case p of
        PTuple i c \<Rightarrow> Inl InterfaceError
      | PNone \<Rightarrow>
          (case sql_select (\<lambda>r. False) (project_codes st) of
             Inl e \<Rightarrow> Inl e | Inr rows \<Rightarrow> Inr (map pc_id rows))
      | PText c \<Rightarrow>
          (case sql_select (\<lambda>r. code r = c) (project_codes st) of
             Inl e \<Rightarrow> Inl e | Inr rows \<Rightarrow> Inr (map pc_id rows)))"

text \<open>
  Line 214: \<^verbatim>\<open>INSERT INTO project_codes (code, description) VALUES (?, ?)\<close>; line 217:
  \<^verbatim>\<open>UPDATE project_codes SET code = ?, description = ? WHERE id = ?\<close>; line 220:
  \<^verbatim>\<open>DELETE FROM project_codes WHERE id = ?\<close>. \<^verbatim>\<open>code\<close> is \<^verbatim>\<open>UNIQUE\<close>.
\<close>

definition insert_project_code :: "store \<Rightarrow> string \<Rightarrow> string \<Rightarrow> error + store \<times> nat" where
  "insert_project_code st c d =
     (let rows = table_rows (project_codes st);
          r = \<lparr>pc_id = next_rowid (map pc_id rows), code = c, description = Some d\<rparr>
      in set_project_codes st
           (sql_insert (list_all (\<lambda>r2. code r2 \<noteq> c) rows) r (project_codes st)))"

definition update_project_code :: "store \<Rightarrow> string \<Rightarrow> string \<Rightarrow> int \<Rightarrow> error + store \<times> nat" where
  "update_project_code st c d pid =
     set_project_codes st
       (sql_update (\<lambda>r. pc_id r = pid) (\<lambda>r. r\<lparr>code := c, description := Some d\<rparr>)
          (\<lambda>rows r'. list_all (\<lambda>r2. pc_id r2 = pc_id r' \<or> code r2 \<noteq> code r') rows)
          (project_codes st))"

definition delete_project_code :: "store \<Rightarrow> int \<Rightarrow> error + store \<times> nat" where
  "delete_project_code st pid =
     set_project_codes st (sql_delete (\<lambda>r. pc_id r = pid) (project_codes st))"

text \<open>
  Line 242: \<^verbatim>\<open>INSERT INTO users (username, role) VALUES (?, ?)\<close>; line 245:
  \<^verbatim>\<open>UPDATE users SET username = ?, role = ? WHERE id = ?\<close>; line 248:
  \<^verbatim>\<open>DELETE FROM users WHERE id = ?\<close>. \<^verbatim>\<open>username\<close> is \<^verbatim>\<open>UNIQUE\<close> and \<^verbatim>\<open>role\<close> is
  checked.
\<close>

definition insert_user :: "store \<Rightarrow> string \<Rightarrow> string \<Rightarrow> error + store \<times> nat" where
  "insert_user st name r =
     (let rows = table_rows (users st);
          u = \<lparr>u_id = next_rowid (map u_id rows), username = name, role = r\<rparr>
      in set_users st
           (sql_insert (role_check r \<and> list_all (\<lambda>u2. username u2 \<noteq> name) rows) u (users st)))"

definition update_user :: "store \<Rightarrow> string \<Rightarrow> string \<Rightarrow> int \<Rightarrow> error + store \<times> nat" where
  "update_user st name r uid =
     set_users st
       (sql_update (\<lambda>u. u_id u = uid) (\<lambda>u. u\<lparr>username := name, role := r\<rparr>)
          (\<lambda>rows u'. role_check (role u') \<and>
             list_all (\<lambda>u2. u_id u2 = u_id u' \<or> username u2 \<noteq> username u') rows)
          (users st))"

definition delete_user :: "store \<Rightarrow> int \<Rightarrow> error + store \<times> nat" where
  "delete_user st uid = set_users st (sql_delete (\<lambda>u. u_id u = uid) (users st))"

subsection \<open>The dashboards\<close>

text \<open>
  One run of the Streamlit script handles at most one pressed button. An action is what
  the person at the browser did in that run: the dashboard, the widget values and the
  button. \<^verbatim>\<open>run_query\<close>'s cursor is dropped by every caller.
\<close>

definition committed :: "error + store \<times> nat \<Rightarrow> error + store" where
  "committed res = (case res of Inl e \<Rightarrow> Inl e | Inr (st, n) \<Rightarrow> Inr st)"

datatype user_action =
  CreateTimesheet "string option" string real
    \<comment> \<open>selected project code (\<^verbatim>\<open>None\<close> when there is none to select), date, hours\<close>
| ModifyTimesheet int "(int \<times> string) option" string real
    \<comment> \<open>timesheet id, selected project code, date, hours\<close>
| DeleteTimesheet int
| ViewTimesheets
| Resubmit int real
    \<comment> \<open>the button \<^verbatim>\<open>resubmit_<id>\<close> and the value of the number input \<^verbatim>\<open>hours_<id>\<close>\<close>

datatype button = ApproveButton int | RejectButton int

datatype manager_action =
  Review button string
    \<comment> \<open>the pressed button and the text of the comment area of its timesheet\<close>
| CreateProjectCode string string
| ModifyProjectCode int string string
| DeleteProjectCode int
| CreateUser string string
| ModifyUser int string string
| DeleteUser int

datatype action = AsUser string user_action | AsManager string manager_action

text \<open>
  Lines 158-166, the loop of "Respond to Comments": one block per rejected timesheet of
  the user, the update under the block's own button.
\<close>

fun respond_to_comments ::
  "int \<Rightarrow> real \<Rightarrow> (int \<times> string \<times> string \<times> string option) list \<Rightarrow> store \<Rightarrow> error + store"
where
  "respond_to_comments k modified_hours [] st = Inr st"
| "respond_to_comments k modified_hours (timesheet # rest) st =
     (if k = fst timesheet
      then (case committed (resubmit_timesheet st modified_hours (fst timesheet)) of
              Inl e \<Rightarrow> Inl e
            | Inr st' \<Rightarrow> respond_to_comments k modified_hours rest st')
      else respond_to_comments k modified_hours rest st)"

text \<open>
  Lines 181-193, the loop of "Review Timesheets": one block per pending timesheet, with
  an Approve and a Reject button.
\<close>

fun review_timesheets :: "button \<Rightarrow> string \<Rightarrow> timesheet_row list \<Rightarrow> store \<Rightarrow> error + store" where
  "review_timesheets b c [] st = Inr st"
| "review_timesheets b c (timesheet # rest) st =
     (case (if b = ApproveButton (ts_id timesheet)
            then committed (approve_timesheet st c (ts_id timesheet)) else Inr st) of
        Inl e \<Rightarrow> Inl e
      | Inr st1 \<Rightarrow>
          (case (if b = RejectButton (ts_id timesheet)
                 then committed (reject_timesheet st1 c (ts_id timesheet)) else Inr st1) of
             Inl e \<Rightarrow> Inl e
           | Inr st2 \<Rightarrow> review_timesheets b c rest st2))"

text \<open>
  \<^verbatim>\<open>user_dashboard\<close> (lines 98-166). \<^verbatim>\<open>project_code_map\<close> is the dictionary from code to
  id, a later row overwriting an earlier one. "Modify Timesheet" offers the rows of
  \<^verbatim>\<open>get_project_codes\<close> themselves in its select box and binds the selected one to the
  query of line 131.
\<close>

definition user_dashboard :: "store \<Rightarrow> int \<Rightarrow> user_action \<Rightarrow> error + store" where
  "user_dashboard st uid a =
     (case get_project_codes st of
        Inl e \<Rightarrow> Inl e
      | Inr pcs \<Rightarrow>
          (let project_code_map = map_of (rev (map (\<lambda>(i, c). (c, i)) pcs)) in
           case a of
             CreateTimesheet project_code d h \<Rightarrow>
               (case project_code of
                  None \<Rightarrow> Inl KeyError
                | Some k \<Rightarrow>
                    (case project_code_map k of
                       None \<Rightarrow> Inl KeyError
                     | Some pcid \<Rightarrow> committed (insert_timesheet st uid pcid d h ''pending'')))
           | ModifyTimesheet tid project_code d h \<Rightarrow>
               (case select_project_code_id st
                       (case project_code of None \<Rightarrow> PNone | Some (i, c) \<Rightarrow> PTuple i c) of
                  Inl e \<Rightarrow> Inl e
                | Inr [] \<Rightarrow> Inl IndexError
                | Inr (pcid # _) \<Rightarrow> committed (update_timesheet st pcid d h tid uid))
           | DeleteTimesheet tid \<Rightarrow> committed (delete_timesheet st tid uid)
           | ViewTimesheets \<Rightarrow>
               (case view_timesheets st uid of Inl e \<Rightarrow> Inl e | Inr rows \<Rightarrow> Inr st)
           | Resubmit k h \<Rightarrow>
               (case rejected_timesheets st uid of
                  Inl e \<Rightarrow> Inl e
                | Inr rows \<Rightarrow> respond_to_comments k h rows st)))"

text \<open>
  \<^verbatim>\<open>manager_dashboard\<close> (lines 175-249). \<^verbatim>\<open>Modify\<close> and \<^verbatim>\<open>Delete\<close> also test that the id
  is truthy, that is, not 0.
\<close>

definition manager_dashboard :: "store \<Rightarrow> int \<Rightarrow> manager_action \<Rightarrow> error + store" where
  "manager_dashboard st mid a =
     (case a of
        Review b c \<Rightarrow>
          (case pending_timesheets st of
             Inl e \<Rightarrow> Inl e
           | Inr rows \<Rightarrow> review_timesheets b c rows st)
      | CreateProjectCode c d \<Rightarrow>
          (case sql_select (\<lambda>r. True) (project_codes st) of
             Inl e \<Rightarrow> Inl e | Inr rows \<Rightarrow> committed (insert_project_code st c d))
      | ModifyProjectCode pid c d \<Rightarrow>
          (case sql_select (\<lambda>r. True) (project_codes st) of
             Inl e \<Rightarrow> Inl e
           | Inr rows \<Rightarrow> if pid \<noteq> 0 then committed (update_project_code st c d pid) else Inr st)
      | DeleteProjectCode pid \<Rightarrow>
          (case sql_select (\<lambda>r. True) (project_codes st) of
             Inl e \<Rightarrow> Inl e
           | Inr rows \<Rightarrow> if pid \<noteq> 0 then committed (delete_project_code st pid) else Inr st)
      | CreateUser name r \<Rightarrow>
          (case sql_select (\<lambda>u. True) (users st) of
             Inl e \<Rightarrow> Inl e | Inr rows \<Rightarrow> committed (insert_user st name r))
      | ModifyUser uid name r \<Rightarrow>
          (case sql_select (\<lambda>u. True) (users st) of
             Inl e \<Rightarrow> Inl e
           | Inr rows \<Rightarrow> if uid \<noteq> 0 then committed (update_user st name r uid) else Inr st)
      | DeleteUser uid \<Rightarrow>
          (case sql_select (\<lambda>u. True) (users st) of
             Inl e \<Rightarrow> Inl e
           | Inr rows \<Rightarrow> if uid \<noteq> 0 then committed (delete_user st uid) else Inr st))"

text \<open>
  Lines 258-274, the navigation: the sidebar gives a role and a user name, and the
  dashboard opens when \<^verbatim>\<open>authenticate\<close> returns a truthy id.
\<close>

definition navigation :: "store \<Rightarrow> action \<Rightarrow> error + store" where
  "navigation st a =
     (case a of
        AsUser name ua \<Rightarrow>
          (case authenticate st name ''user'' of
             Inl e \<Rightarrow> Inl e
           | Inr None \<Rightarrow> Inr st
           | Inr (Some uid) \<Rightarrow> if uid \<noteq> 0 then user_dashboard st uid ua else Inr st)
      | AsManager name ma \<Rightarrow>
          (case authenticate st name ''manager'' of
             Inl e \<Rightarrow> Inl e
           | Inr None \<Rightarrow> Inr st
           | Inr (Some mid) \<Rightarrow> if mid \<noteq> 0 then manager_dashboard st mid ma else Inr st))"

text \<open>
  One run of the script: \<^verbatim>\<open>init_db()\<close> at line 54, then the navigation. An exception ends
  the run with what was committed before it, the schema.
\<close>

definition run_script :: "store \<Rightarrow> action \<Rightarrow> store" where
  "run_script st a =
     (case navigation (init_db st) a of Inl e \<Rightarrow> init_db st | Inr st' \<Rightarrow> st')"

text \<open>
  What the widgets can return. \<^verbatim>\<open>st.number_input\<close> with \<^verbatim>\<open>min_value\<close> and \<^verbatim>\<open>max_value\<close>
  returns a number between them; the select box of roles returns one of its two options.
  A select box over rows of the database and a button inside a loop are not constrained
  here: the dashboards look the selection up and only render the buttons of listed rows.
\<close>

definition number_input :: "real \<Rightarrow> real \<Rightarrow> real \<Rightarrow> bool" where
  "number_input min_value max_value v = (min_value \<le> v \<and> v \<le> max_value)"

definition id_input :: "int \<Rightarrow> int \<Rightarrow> bool" where
  "id_input min_value v = (min_value \<le> v)"

fun user_widgets :: "user_action \<Rightarrow> bool" where
  "user_widgets (CreateTimesheet project_code d h) = number_input 0 24 h"
| "user_widgets (ModifyTimesheet tid project_code d h) = (id_input 1 tid \<and> number_input 0 24 h)"
| "user_widgets (DeleteTimesheet tid) = id_input 1 tid"
| "user_widgets ViewTimesheets = True"
| "user_widgets (Resubmit k h) = number_input 0 24 h"

fun manager_widgets :: "manager_action \<Rightarrow> bool" where
  "manager_widgets (Review b c) = True"
| "manager_widgets (CreateProjectCode c d) = True"
| "manager_widgets (ModifyProjectCode pid c d) = id_input 1 pid"
| "manager_widgets (DeleteProjectCode pid) = id_input 1 pid"
| "manager_widgets (CreateUser name r) = (r = ''user'' \<or> r = ''manager'')"
| "manager_widgets (ModifyUser uid name r) = (id_input 1 uid \<and> (r = ''user'' \<or> r = ''manager''))"
| "manager_widgets (DeleteUser uid) = id_input 1 uid"

fun widgets :: "action \<Rightarrow> bool" where
  "widgets (AsUser name ua) = user_widgets ua"
| "widgets (AsManager name ma) = manager_widgets ma"

text \<open>
  The stores the program can reach from the database file \<open>st0\<close> it finds when it first
  starts: every run of the script takes one action that the widgets allow. (No run on an
  empty \<^verbatim>\<open>users\<close> table opens a dashboard, so the first manager is a row of \<open>st0\<close>.)
\<close>

inductive reachable_from :: "store \<Rightarrow> store \<Rightarrow> bool" for st0 :: store where
  start: "reachable_from st0 (init_db st0)"
| run: "reachable_from st0 st \<Longrightarrow> widgets a \<Longrightarrow> reachable_from st0 (run_script st a)"

text \<open>
  What SQLite guarantees of a \<^verbatim>\<open>timesheets\<close> table of this schema, whoever wrote its rows:
  the rows are in ascending order of their primary key, and each satisfies the two
  \<^verbatim>\<open>CHECK\<close> constraints.
\<close>

definition valid_timesheets :: "store \<Rightarrow> bool" where
  "valid_timesheets st =
     (sorted_wrt (<) (map ts_id (table_rows (timesheets st)))
      \<and> list_all timesheet_check (table_rows (timesheets st)))"

text \<open>
  What one run of the script can do to the \<^verbatim>\<open>timesheets\<close> table, read off the two
  dashboards: nothing, one insert, one delete, or one of the three updates on a row that
  the dashboard listed. It is the case analysis behind the invariants below.
\<close>

definition run_effect :: "action \<Rightarrow> timesheet_row list \<Rightarrow> timesheet_row list \<Rightarrow> bool" where
  "run_effect a rows rows' =
     (rows' = rows
      \<or> (\<exists>name pc d h uid pcid. a = AsUser name (CreateTimesheet pc d h) \<and>
            rows' = rows @ [\<lparr>ts_id = next_rowid (map ts_id rows), user_id = uid,
                             project_code_id = pcid, date = d, hours = h, status = ''pending'',
                             comments = None\<rparr>])
      \<or> (\<exists>name tid uid. a = AsUser name (DeleteTimesheet tid) \<and>
            rows' = filter (\<lambda>r. \<not> (ts_id r = tid \<and> user_id r = uid)) rows)
      \<or> (\<exists>name k h. a = AsUser name (Resubmit k h) \<and>
            (\<exists>r \<in> set rows. ts_id r = k \<and> status r = ''rejected'') \<and>
            rows' = map (\<lambda>r. if ts_id r = k then r\<lparr>hours := h, status := ''pending''\<rparr> else r) rows)
      \<or> (\<exists>name k c. a = AsManager name (Review (ApproveButton k) c) \<and>
            (\<exists>r \<in> set rows. ts_id r = k \<and> status r = ''pending'') \<and>
            rows' = map (\<lambda>r. if ts_id r = k then r\<lparr>status := ''approved'', comments := Some c\<rparr> else r) rows)
      \<or> (\<exists>name k c. a = AsManager name (Review (RejectButton k) c) \<and>
            (\<exists>r \<in> set rows. ts_id r = k \<and> status r = ''pending'') \<and>
            rows' = map (\<lambda>r. if ts_id r = k then r\<lparr>status := ''rejected'', comments := Some c\<rparr> else r) rows))"


text \<open>
  A database to run the program on: a manager, a user and a project code, seeded by hand
  as the first rows have to be, and the same database with a timesheet in each status.
\<close>

definition seeded_store :: store where
  "seeded_store =
     \<lparr>users = Some [\<lparr>u_id = 1, username = ''bob'', role = ''manager''\<rparr>,
                    \<lparr>u_id = 2, username = ''alice'', role = ''user''\<rparr>],
      project_codes = Some [\<lparr>pc_id = 1, code = ''ENG'', description = Some ''Engineering''\<rparr>],
      timesheets = Some []\<rparr>"

definition rejected_row :: timesheet_row where
  "rejected_row = \<lparr>ts_id = 1, user_id = 2, project_code_id = 1, date = ''2024-01-05'',
                    hours = 8, status = ''rejected'', comments = Some ''missing approval''\<rparr>"

definition approved_row :: timesheet_row where
  "approved_row = \<lparr>ts_id = 2, user_id = 2, project_code_id = 1, date = ''2024-01-08'',
                    hours = 7, status = ''approved'', comments = Some ''ok''\<rparr>"

definition pending_row :: timesheet_row where
  "pending_row = \<lparr>ts_id = 3, user_id = 2, project_code_id = 1, date = ''2024-01-09'',
                   hours = 4, status = ''pending'', comments = None\<rparr>"

definition worked_store :: store where
  "worked_store = seeded_store\<lparr>timesheets := Some [rejected_row, approved_row, pending_row]\<rparr>"

definition created_store :: store where
  "created_store = seeded_store\<lparr>timesheets := Some
     [\<lparr>ts_id = 1, user_id = 2, project_code_id = 1, date = ''2024-01-05'', hours = 8,
       status = ''pending'', comments = None\<rparr>]\<rparr>"

text \<open>
  A database of two users with timesheets of both, in both listed statuses, and two
  project codes whose order by code is not their order by id; and its timesheets after
  one more is created.
\<close>

definition team_rows :: "timesheet_row list" where
  "team_rows =
     [\<lparr>ts_id = 1, user_id = 2, project_code_id = 1, date = ''2024-01-05'', hours = 8,
       status = ''rejected'', comments = Some ''missing approval''\<rparr>,
      \<lparr>ts_id = 2, user_id = 3, project_code_id = 1, date = ''2024-01-05'', hours = 6,
       status = ''pending'', comments = None\<rparr>,
      \<lparr>ts_id = 3, user_id = 2, project_code_id = 2, date = ''2024-01-08'', hours = 7,
       status = ''pending'', comments = None\<rparr>,
      \<lparr>ts_id = 4, user_id = 3, project_code_id = 2, date = ''2024-01-08'', hours = 3,
       status = ''rejected'', comments = Some ''too few''\<rparr>]"

definition team_store :: store where
  "team_store =
     \<lparr>users = Some [\<lparr>u_id = 1, username = ''bob'', role = ''manager''\<rparr>,
                    \<lparr>u_id = 2, username = ''alice'', role = ''user''\<rparr>,
                    \<lparr>u_id = 3, username = ''carol'', role = ''user''\<rparr>],
      project_codes = Some [\<lparr>pc_id = 1, code = ''ENG'', description = Some ''Engineering''\<rparr>,
                            \<lparr>pc_id = 2, code = ''ABC'', description = Some ''Accounting''\<rparr>],
      timesheets = Some team_rows\<rparr>"

definition team_rows_after :: "timesheet_row list" where
  "team_rows_after = team_rows @
     [\<lparr>ts_id = 5, user_id = 2, project_code_id = 2, date = ''2024-01-10'', hours = 6,
       status = ''pending'', comments = None\<rparr>]"

section \<open>Properties\<close>

subsection \<open>The schema\<close>

lemma init_db_idem: "init_db (init_db st) = init_db st"
  by (simp add: init_db_def create_table_if_not_exists_def split: option.splits)

lemma init_db_funpow: "(init_db ^^ Suc n) st = init_db st"
  by (induction n) (simp_all add: init_db_idem)

lemma init_db_tables:
  "users (init_db st) = Some (table_rows (users st))"
  "project_codes (init_db st) = Some (table_rows (project_codes st))"
  "timesheets (init_db st) = Some (table_rows (timesheets st))"
  by (simp_all add: init_db_def create_table_if_not_exists_def table_rows_def split: option.splits)

lemma init_db_fixed:
  "users st \<noteq> None \<Longrightarrow> project_codes st \<noteq> None \<Longrightarrow> timesheets st \<noteq> None \<Longrightarrow> init_db st = st"
  by (auto simp add: init_db_def create_table_if_not_exists_def split: option.splits)

text \<open>
  C10. \<^verbatim>\<open>init_db\<close> is idempotent: any number of calls gives the store of the first
  call; after it the three tables exist; a table that existed keeps its rows; and on a
  store that has the three tables it changes nothing.
\<close>

theorem init_db_idempotent:
  "(init_db ^^ Suc n) st = init_db st
   \<and> users (init_db st) \<noteq> None \<and> project_codes (init_db st) \<noteq> None \<and> timesheets (init_db st) \<noteq> None
   \<and> (\<forall>rows. users st = Some rows \<longrightarrow> users (init_db st) = Some rows)
   \<and> (\<forall>rows. project_codes st = Some rows \<longrightarrow> project_codes (init_db st) = Some rows)
   \<and> (\<forall>rows. timesheets st = Some rows \<longrightarrow> timesheets (init_db st) = Some rows)
   \<and> (users st \<noteq> None \<and> project_codes st \<noteq> None \<and> timesheets st \<noteq> None \<longrightarrow> init_db st = st)"
  using init_db_funpow [of n st] init_db_fixed [of st]
  by (simp del: funpow.simps add: init_db_tables table_rows_def)

text \<open>
  C5. \<^verbatim>\<open>authenticate\<close> on an existing \<^verbatim>\<open>users\<close> table never raises; it returns the id of a
  row with that name and that role when there is one and \<^verbatim>\<open>None\<close> when there is none;
  with user names unique, as the schema has them, the row is any row that matches; and
  the result depends on the \<^verbatim>\<open>users\<close> table only, so it is the same on every call over
  an unchanged table.
\<close>

theorem authenticate_lookup:
  assumes "users st = Some us"
  shows "(case authenticate st name r of
            Inl e \<Rightarrow> False
          | Inr None \<Rightarrow> \<not> (\<exists>u \<in> set us. username u = name \<and> role u = r)
          | Inr (Some i) \<Rightarrow> (\<exists>u \<in> set us. username u = name \<and> role u = r \<and> u_id u = i))
         \<and> (distinct (map username us) \<longrightarrow>
              (\<forall>u \<in> set us. username u = name \<and> role u = r \<longrightarrow> authenticate st name r = Inr (Some (u_id u))))
         \<and> (\<forall>st'. users st' = users st \<longrightarrow> authenticate st' name r = authenticate st name r)"
proof (intro conjI)
  let ?wh = "\<lambda>u. username u = name \<and> role u = r"
  have auth: "authenticate st name r = Inr (case filter ?wh us of [] \<Rightarrow> None | u # _ \<Rightarrow> Some (u_id u))"
    using assms by (simp add: authenticate_def sql_select_def)
  show "case authenticate st name r of
            Inl e \<Rightarrow> False
          | Inr None \<Rightarrow> \<not> (\<exists>u \<in> set us. username u = name \<and> role u = r)
          | Inr (Some i) \<Rightarrow> (\<exists>u \<in> set us. username u = name \<and> role u = r \<and> u_id u = i)"
  proof (cases "filter ?wh us")
    case Nil
    then have "\<not> (\<exists>u \<in> set us. ?wh u)" by (simp add: filter_empty_conv)
    with Nil auth show ?thesis by simp
  next
    case (Cons u rest)
    then have "u \<in> set (filter ?wh us)" by simp
    then have "u \<in> set us \<and> ?wh u" by simp
    with Cons auth show ?thesis by auto
  qed
  show "distinct (map username us) \<longrightarrow>
          (\<forall>u \<in> set us. username u = name \<and> role u = r \<longrightarrow> authenticate st name r = Inr (Some (u_id u)))"
  proof (intro impI ballI)
    fix u assume d: "distinct (map username us)" and u: "u \<in> set us" and m: "username u = name \<and> role u = r"
    have uniq: "\<forall>v \<in> set us. username v = name \<longrightarrow> v = u"
      using d u m by (metis distinct_map inj_on_def)
    show "authenticate st name r = Inr (Some (u_id u))"
    proof (cases "filter ?wh us")
      case Nil
      then have "\<not> (\<exists>u \<in> set us. ?wh u)" by (simp add: filter_empty_conv)
      with u m show ?thesis by blast
    next
      case (Cons v rest)
      then have "v \<in> set (filter ?wh us)" by simp
      then have "v = u" using uniq by simp
      with Cons auth show ?thesis by simp
    qed
  qed
  show "\<forall>st'. users st' = users st \<longrightarrow> authenticate st' name r = authenticate st name r"
    by (simp add: authenticate_def)
qed

subsection \<open>Statements on the timesheets table\<close>

lemma store_same_timesheets: "timesheets st = Some rows \<Longrightarrow> st\<lparr>timesheets := Some rows\<rparr> = st"
  by simp

lemma update_statement:
  assumes "timesheets st = Some rows"
  shows "set_timesheets st (sql_update wh upd (\<lambda>rows. timesheet_check) (timesheets st)) =
         (if \<forall>r \<in> set rows. wh r \<longrightarrow> timesheet_check (upd r)
          then Inr (st\<lparr>timesheets := Some (map (\<lambda>r. if wh r then upd r else r) rows)\<rparr>,
                    length (filter wh rows))
          else Inl IntegrityError)"
  using assms by (auto simp add: set_timesheets_def sql_update_def list_all_iff)

lemma delete_statement:
  assumes "timesheets st = Some rows"
  shows "delete_timesheet st tid uid =
         Inr (st\<lparr>timesheets := Some (filter (\<lambda>r. \<not> (ts_id r = tid \<and> user_id r = uid)) rows)\<rparr>,
              length (filter (\<lambda>r. ts_id r = tid \<and> user_id r = uid) rows))"
  using assms by (simp add: delete_timesheet_def set_timesheets_def sql_delete_def)

lemma insert_statement:
  assumes "timesheets st = Some rows"
  shows "insert_timesheet st uid pcid d h s =
         (if 0 \<le> h \<and> status_check s
          then Inr (st\<lparr>timesheets := Some (rows @
                 [\<lparr>ts_id = next_rowid (map ts_id rows), user_id = uid, project_code_id = pcid,
                   date = d, hours = h, status = s, comments = None\<rparr>])\<rparr>, 1)
          else Inl IntegrityError)"
  using assms
  by (simp add: insert_timesheet_def set_timesheets_def sql_insert_def table_rows_def
      timesheet_check_def Let_def)

lemma next_rowid_fresh: "\<forall>i \<in> set ids. i < next_rowid ids"
proof (cases "ids = []")
  case True
  then show ?thesis by simp
next
  case False
  have "\<forall>i \<in> set ids. i \<le> Max (set ids)" by simp
  with False show ?thesis by (auto simp add: next_rowid_def)
qed

lemma resubmit_statement:
  assumes "timesheets st = Some rows" and "0 \<le> h"
  shows "resubmit_timesheet st h tid =
         Inr (st\<lparr>timesheets := Some (map (\<lambda>r. if ts_id r = tid then r\<lparr>hours := h, status := ''pending''\<rparr> else r) rows)\<rparr>,
              length (filter (\<lambda>r. ts_id r = tid) rows))"
  unfolding resubmit_timesheet_def update_statement [OF assms(1)]
  using assms(2) by (simp add: timesheet_check_def status_check_def)

lemma approve_statement:
  assumes "timesheets st = Some rows" and "\<forall>r \<in> set rows. 0 \<le> hours r"
  shows "approve_timesheet st c tid =
         Inr (st\<lparr>timesheets := Some (map (\<lambda>r. if ts_id r = tid then r\<lparr>status := ''approved'', comments := Some c\<rparr> else r) rows)\<rparr>,
              length (filter (\<lambda>r. ts_id r = tid) rows))"
  unfolding approve_timesheet_def update_statement [OF assms(1)]
  using assms(2) by (simp add: timesheet_check_def status_check_def)

lemma reject_statement:
  assumes "timesheets st = Some rows" and "\<forall>r \<in> set rows. 0 \<le> hours r"
  shows "reject_timesheet st c tid =
         Inr (st\<lparr>timesheets := Some (map (\<lambda>r. if ts_id r = tid then r\<lparr>status := ''rejected'', comments := Some c\<rparr> else r) rows)\<rparr>,
              length (filter (\<lambda>r. ts_id r = tid) rows))"
  unfolding reject_timesheet_def update_statement [OF assms(1)]
  using assms(2) by (simp add: timesheet_check_def status_check_def)

lemma valid_timesheets_hours:
  "valid_timesheets st \<Longrightarrow> timesheets st = Some rows \<Longrightarrow> \<forall>r \<in> set rows. 0 \<le> hours r"
  by (simp add: valid_timesheets_def table_rows_def list_all_iff timesheet_check_def)

lemma valid_timesheets_distinct:
  "valid_timesheets st \<Longrightarrow> timesheets st = Some rows \<Longrightarrow> distinct (map ts_id rows)"
  using strict_sorted_iff [of "map ts_id rows"] by (simp add: valid_timesheets_def table_rows_def)

text \<open>
  C6. The manager's two updates succeed on a valid table, and change nothing but the
  status and the comment of the rows with the given id: every row keeps its id, owner,
  date, project code and hours, every other row is unchanged, and so are the other two
  tables.
\<close>

theorem review_changes_status_and_comment_only:
  assumes "timesheets st = Some rows" and "valid_timesheets st"
  shows "(\<exists>rows' n. approve_timesheet st c tid = Inr (st\<lparr>timesheets := Some rows'\<rparr>, n)
            \<and> length rows' = length rows
            \<and> (\<forall>i < length rows.
                  ts_id (rows' ! i) = ts_id (rows ! i) \<and> user_id (rows' ! i) = user_id (rows ! i)
                  \<and> date (rows' ! i) = date (rows ! i)
                  \<and> project_code_id (rows' ! i) = project_code_id (rows ! i)
                  \<and> hours (rows' ! i) = hours (rows ! i)
                  \<and> (ts_id (rows ! i) \<noteq> tid \<longrightarrow> rows' ! i = rows ! i)
                  \<and> (ts_id (rows ! i) = tid \<longrightarrow>
                        status (rows' ! i) = ''approved'' \<and> comments (rows' ! i) = Some c)))
       \<and> (\<exists>rows' n. reject_timesheet st c tid = Inr (st\<lparr>timesheets := Some rows'\<rparr>, n)
            \<and> length rows' = length rows
            \<and> (\<forall>i < length rows.
                  ts_id (rows' ! i) = ts_id (rows ! i) \<and> user_id (rows' ! i) = user_id (rows ! i)
                  \<and> date (rows' ! i) = date (rows ! i)
                  \<and> project_code_id (rows' ! i) = project_code_id (rows ! i)
                  \<and> hours (rows' ! i) = hours (rows ! i)
                  \<and> (ts_id (rows ! i) \<noteq> tid \<longrightarrow> rows' ! i = rows ! i)
                  \<and> (ts_id (rows ! i) = tid \<longrightarrow>
                        status (rows' ! i) = ''rejected'' \<and> comments (rows' ! i) = Some c)))"
proof -
  have h: "\<forall>r \<in> set rows. 0 \<le> hours r"
    using assms by (simp add: valid_timesheets_hours)
  let ?n = "length (filter (\<lambda>r. ts_id r = tid) rows)"
  let ?a = "map (\<lambda>r. if ts_id r = tid then r\<lparr>status := ''approved'', comments := Some c\<rparr> else r) rows"
  let ?r = "map (\<lambda>r. if ts_id r = tid then r\<lparr>status := ''rejected'', comments := Some c\<rparr> else r) rows"
  show ?thesis
    unfolding approve_statement [OF assms(1) h] reject_statement [OF assms(1) h]
    by (intro conjI exI [of _ ?a] exI [of _ ?r] exI [of _ ?n]) simp_all
qed

subsection \<open>The loops of the dashboards\<close>

lemma respond_to_comments_other:
  "k \<notin> fst ` set listed \<Longrightarrow> respond_to_comments k h listed st = Inr st"
  by (induction listed arbitrary: st) auto

lemma respond_to_comments_listed:
  "distinct (map fst listed) \<Longrightarrow> k \<in> fst ` set listed \<Longrightarrow>
   respond_to_comments k h listed st = committed (resubmit_timesheet st h k)"
proof (induction listed arbitrary: st)
  case Nil
  then show ?case by simp
next
  case (Cons t rest)
  show ?case
  proof (cases "k = fst t")
    case True
    with Cons.prems have "k \<notin> fst ` set rest" by auto
    then have "respond_to_comments k h rest st' = Inr st'" for st'
      by (rule respond_to_comments_other)
    with True show ?thesis
      by (simp add: committed_def split: sum.splits prod.splits)
  next
    case False
    with Cons show ?thesis by auto
  qed
qed

lemma review_timesheets_other:
  "(case b of ApproveButton k \<Rightarrow> k | RejectButton k \<Rightarrow> k) \<notin> ts_id ` set listed \<Longrightarrow>
   review_timesheets b c listed st = Inr st"
  by (induction listed arbitrary: st) (auto split: button.splits)

lemma review_timesheets_approve:
  "distinct (map ts_id listed) \<Longrightarrow> k \<in> ts_id ` set listed \<Longrightarrow>
   review_timesheets (ApproveButton k) c listed st = committed (approve_timesheet st c k)"
proof (induction listed arbitrary: st)
  case Nil
  then show ?case by simp
next
  case (Cons t rest)
  show ?case
  proof (cases "k = ts_id t")
    case True
    with Cons.prems have "k \<notin> ts_id ` set rest" by auto
    then have "review_timesheets (ApproveButton k) c rest st' = Inr st'" for st'
      by (simp add: review_timesheets_other)
    with True show ?thesis
      by (simp split: sum.splits)
  next
    case False
    with Cons show ?thesis by auto
  qed
qed

lemma review_timesheets_reject:
  "distinct (map ts_id listed) \<Longrightarrow> k \<in> ts_id ` set listed \<Longrightarrow>
   review_timesheets (RejectButton k) c listed st = committed (reject_timesheet st c k)"
proof (induction listed arbitrary: st)
  case Nil
  then show ?case by simp
next
  case (Cons t rest)
  show ?case
  proof (cases "k = ts_id t")
    case True
    with Cons.prems have "k \<notin> ts_id ` set rest" by auto
    then have "review_timesheets (RejectButton k) c rest st' = Inr st'" for st'
      by (simp add: review_timesheets_other)
    with True show ?thesis
      by (simp split: sum.splits)
  next
    case False
    with Cons show ?thesis by auto
  qed
qed

lemma distinct_listed:
  "distinct (map ts_id rows) \<Longrightarrow> distinct (map ts_id (filter wh rows))"
  by (simp add: distinct_map_filter)

lemma get_project_codes_Some:
  "project_codes st = Some pcs \<Longrightarrow>
   get_project_codes st = Inr (map (\<lambda>r. (pc_id r, code r)) (sort_key code pcs))"
  by (simp add: get_project_codes_def sql_select_def)

lemma user_dashboard_resubmit:
  assumes "project_codes st = Some pcs" and "timesheets st = Some rows"
    and "distinct (map ts_id rows)"
  shows "user_dashboard st uid (Resubmit k h) =
         (if \<exists>r \<in> set rows. ts_id r = k \<and> user_id r = uid \<and> status r = ''rejected''
          then committed (resubmit_timesheet st h k) else Inr st)"
proof -
  let ?listed = "filter (\<lambda>r. user_id r = uid \<and> status r = ''rejected'') rows"
  let ?tuples = "map (\<lambda>r. (ts_id r, date r, status r, comments r)) ?listed"
  have rej: "rejected_timesheets st uid = Inr ?tuples"
    using assms(2) by (simp add: rejected_timesheets_def select_timesheets_def sql_select_def)
  have ud: "user_dashboard st uid (Resubmit k h) = respond_to_comments k h ?tuples st"
    using assms(1) rej by (simp add: user_dashboard_def get_project_codes_Some)
  have fst_tuples: "map fst ?tuples = map ts_id ?listed" by simp
  have d: "distinct (map fst ?tuples)"
    unfolding fst_tuples using assms(3) by (rule distinct_listed)
  have mem: "k \<in> fst ` set ?tuples \<longleftrightarrow>
             (\<exists>r \<in> set rows. ts_id r = k \<and> user_id r = uid \<and> status r = ''rejected'')"
    by force
  show ?thesis
  proof (cases "k \<in> fst ` set ?tuples")
    case True
    then show ?thesis
      using respond_to_comments_listed [OF d True] ud mem by simp
  next
    case False
    then show ?thesis
      using respond_to_comments_other [OF False, of h st] ud mem by auto
  qed
qed

lemma pending_timesheets_Some:
  "timesheets st = Some rows \<Longrightarrow> pending_timesheets st = Inr (filter (\<lambda>r. status r = ''pending'') rows)"
  by (simp add: pending_timesheets_def select_timesheets_def sql_select_def)

lemma manager_dashboard_approve:
  assumes "timesheets st = Some rows" and "distinct (map ts_id rows)"
  shows "manager_dashboard st mid (Review (ApproveButton k) c) =
         (if \<exists>r \<in> set rows. ts_id r = k \<and> status r = ''pending''
          then committed (approve_timesheet st c k) else Inr st)"
proof -
  let ?listed = "filter (\<lambda>r. status r = ''pending'') rows"
  have md: "manager_dashboard st mid (Review (ApproveButton k) c) =
            review_timesheets (ApproveButton k) c ?listed st"
    using assms(1) by (simp add: manager_dashboard_def pending_timesheets_Some)
  have d: "distinct (map ts_id ?listed)" using assms(2) by (rule distinct_listed)
  have mem: "k \<in> ts_id ` set ?listed \<longleftrightarrow> (\<exists>r \<in> set rows. ts_id r = k \<and> status r = ''pending'')"
    by force
  show ?thesis
  proof (cases "k \<in> ts_id ` set ?listed")
    case True
    then show ?thesis
      using review_timesheets_approve [OF d True] md mem by simp
  next
    case False
    then have "review_timesheets (ApproveButton k) c ?listed st = Inr st"
      by (intro review_timesheets_other) simp
    then show ?thesis using False md mem by auto
  qed
qed

lemma manager_dashboard_reject:
  assumes "timesheets st = Some rows" and "distinct (map ts_id rows)"
  shows "manager_dashboard st mid (Review (RejectButton k) c) =
         (if \<exists>r \<in> set rows. ts_id r = k \<and> status r = ''pending''
          then committed (reject_timesheet st c k) else Inr st)"
proof -
  let ?listed = "filter (\<lambda>r. status r = ''pending'') rows"
  have md: "manager_dashboard st mid (Review (RejectButton k) c) =
            review_timesheets (RejectButton k) c ?listed st"
    using assms(1) by (simp add: manager_dashboard_def pending_timesheets_Some)
  have d: "distinct (map ts_id ?listed)" using assms(2) by (rule distinct_listed)
  have mem: "k \<in> ts_id ` set ?listed \<longleftrightarrow> (\<exists>r \<in> set rows. ts_id r = k \<and> status r = ''pending'')"
    by force
  show ?thesis
  proof (cases "k \<in> ts_id ` set ?listed")
    case True
    then show ?thesis
      using review_timesheets_reject [OF d True] md mem by simp
  next
    case False
    then have "review_timesheets (RejectButton k) c ?listed st = Inr st"
      by (intro review_timesheets_other) simp
    then show ?thesis using False md mem by auto
  qed
qed

lemma user_dashboard_modify_raises:
  "\<exists>e. user_dashboard st uid (ModifyTimesheet tid project_code d h) = Inl e"
  by (cases "project_codes st"; cases project_code)
     (auto simp add: user_dashboard_def get_project_codes_def select_project_code_id_def
        sql_select_def)

subsection \<open>One run of the script\<close>

lemma run_effect_same: "run_effect a rows rows"
  by (simp add: run_effect_def)

lemma user_dashboard_effect:
  assumes pcs: "project_codes st = Some pcs" and ts: "timesheets st = Some rows"
    and v: "valid_timesheets st" and w: "user_widgets ua"
    and res: "user_dashboard st uid ua = Inr st'"
  shows "\<exists>rows'. timesheets st' = Some rows' \<and> run_effect (AsUser name ua) rows rows'"
proof (cases ua)
  case (CreateTimesheet pc d h)
  with w have h: "0 \<le> h" by (simp add: number_input_def)
  from res CreateTimesheet obtain pcid where
    "committed (insert_timesheet st uid pcid d h ''pending'') = Inr st'"
    by (auto simp add: user_dashboard_def get_project_codes_Some [OF pcs] split: option.splits)
  then have "st' = st\<lparr>timesheets := Some (rows @
                 [\<lparr>ts_id = next_rowid (map ts_id rows), user_id = uid, project_code_id = pcid,
                   date = d, hours = h, status = ''pending'', comments = None\<rparr>])\<rparr>"
    using h by (simp add: insert_statement [OF ts] status_check_def committed_def)
  then show ?thesis
    unfolding run_effect_def CreateTimesheet by auto
next
  case (ModifyTimesheet tid pc d h)
  with res user_dashboard_modify_raises [of st uid tid pc d h] show ?thesis by auto
next
  case (DeleteTimesheet tid)
  with res have "st' = st\<lparr>timesheets := Some (filter (\<lambda>r. \<not> (ts_id r = tid \<and> user_id r = uid)) rows)\<rparr>"
    by (auto simp add: user_dashboard_def get_project_codes_Some [OF pcs] delete_statement [OF ts]
        committed_def)
  then show ?thesis
    unfolding run_effect_def DeleteTimesheet by auto
next
  case ViewTimesheets
  with res have "st' = st"
    by (auto simp add: user_dashboard_def get_project_codes_Some [OF pcs] split: sum.splits)
  with ts show ?thesis by (simp add: run_effect_same)
next
  case (Resubmit k h)
  with w have h: "0 \<le> h" by (simp add: number_input_def)
  have d: "distinct (map ts_id rows)" using v ts by (rule valid_timesheets_distinct)
  show ?thesis
  proof (cases "\<exists>r \<in> set rows. ts_id r = k \<and> user_id r = uid \<and> status r = ''rejected''")
    case True
    with res Resubmit have "st' = st\<lparr>timesheets := Some (map (\<lambda>r. if ts_id r = k then r\<lparr>hours := h, status := ''pending''\<rparr> else r) rows)\<rparr>"
      by (simp add: user_dashboard_resubmit [OF pcs ts d] resubmit_statement [OF ts h] committed_def)
    moreover from True have "\<exists>r \<in> set rows. ts_id r = k \<and> status r = ''rejected''" by blast
    ultimately show ?thesis
      unfolding run_effect_def Resubmit by auto
  next
    case False
    with res Resubmit have "st' = st"
      by (simp add: user_dashboard_resubmit [OF pcs ts d])
    with ts show ?thesis by (simp add: run_effect_same)
  qed
qed

lemma committed_set_project_codes:
  "committed (set_project_codes st res) = Inr st' \<Longrightarrow> timesheets st' = timesheets st"
  by (auto simp add: committed_def set_project_codes_def split: sum.splits prod.splits)

lemma committed_set_users:
  "committed (set_users st res) = Inr st' \<Longrightarrow> timesheets st' = timesheets st"
  by (auto simp add: committed_def set_users_def split: sum.splits prod.splits)

lemma manager_dashboard_effect:
  assumes ts: "timesheets st = Some rows"
    and v: "valid_timesheets st"
    and res: "manager_dashboard st mid ma = Inr st'"
  shows "\<exists>rows'. timesheets st' = Some rows' \<and> run_effect (AsManager name ma) rows rows'"
proof (cases ma)
  case (Review b c)
  have d: "distinct (map ts_id rows)" using v ts by (rule valid_timesheets_distinct)
  have hrs: "\<forall>r \<in> set rows. 0 \<le> hours r" using v ts by (rule valid_timesheets_hours)
  show ?thesis
  proof (cases b)
    case (ApproveButton k)
    show ?thesis
    proof (cases "\<exists>r \<in> set rows. ts_id r = k \<and> status r = ''pending''")
      case True
      with res Review ApproveButton
      have "st' = st\<lparr>timesheets := Some (map (\<lambda>r. if ts_id r = k then r\<lparr>status := ''approved'', comments := Some c\<rparr> else r) rows)\<rparr>"
        by (simp add: manager_dashboard_approve [OF ts d] approve_statement [OF ts hrs] committed_def)
      with True show ?thesis
        unfolding run_effect_def Review ApproveButton by auto
    next
      case False
      with res Review ApproveButton have "st' = st"
        by (simp add: manager_dashboard_approve [OF ts d])
      with ts show ?thesis by (simp add: run_effect_same)
    qed
  next
    case (RejectButton k)
    show ?thesis
    proof (cases "\<exists>r \<in> set rows. ts_id r = k \<and> status r = ''pending''")
      case True
      with res Review RejectButton
      have "st' = st\<lparr>timesheets := Some (map (\<lambda>r. if ts_id r = k then r\<lparr>status := ''rejected'', comments := Some c\<rparr> else r) rows)\<rparr>"
        by (simp add: manager_dashboard_reject [OF ts d] reject_statement [OF ts hrs] committed_def)
      with True show ?thesis
        unfolding run_effect_def Review RejectButton by auto
    next
      case False
      with res Review RejectButton have "st' = st"
        by (simp add: manager_dashboard_reject [OF ts d])
      with ts show ?thesis by (simp add: run_effect_same)
    qed
  qed
next
  case (CreateProjectCode c d)
  with res have "timesheets st' = timesheets st"
    by (auto simp add: manager_dashboard_def insert_project_code_def Let_def
        split: sum.splits dest: committed_set_project_codes)
  with ts show ?thesis by (simp add: run_effect_same)
next
  case (ModifyProjectCode pid c d)
  with res have "timesheets st' = timesheets st"
    by (auto simp add: manager_dashboard_def update_project_code_def
        split: sum.splits if_splits dest: committed_set_project_codes)
  with ts show ?thesis by (simp add: run_effect_same)
next
  case (DeleteProjectCode pid)
  with res have "timesheets st' = timesheets st"
    by (auto simp add: manager_dashboard_def delete_project_code_def
        split: sum.splits if_splits dest: committed_set_project_codes)
  with ts show ?thesis by (simp add: run_effect_same)
next
  case (CreateUser n r)
  with res have "timesheets st' = timesheets st"
    by (auto simp add: manager_dashboard_def insert_user_def Let_def
        split: sum.splits dest: committed_set_users)
  with ts show ?thesis by (simp add: run_effect_same)
next
  case (ModifyUser uid n r)
  with res have "timesheets st' = timesheets st"
    by (auto simp add: manager_dashboard_def update_user_def
        split: sum.splits if_splits dest: committed_set_users)
  with ts show ?thesis by (simp add: run_effect_same)
next
  case (DeleteUser uid)
  with res have "timesheets st' = timesheets st"
    by (auto simp add: manager_dashboard_def delete_user_def
        split: sum.splits if_splits dest: committed_set_users)
  with ts show ?thesis by (simp add: run_effect_same)
qed

lemma valid_timesheets_init_db: "valid_timesheets (init_db st) = valid_timesheets st"
  by (simp add: valid_timesheets_def init_db_def create_table_if_not_exists_def table_rows_def
      split: option.splits)

lemma navigation_user:
  assumes "navigation st (AsUser name ua) = Inr st'"
  shows "st' = st \<or> (\<exists>uid. user_dashboard st uid ua = Inr st')"
proof (cases "authenticate st name ''user''")
  case (Inl e)
  with assms show ?thesis by (simp add: navigation_def)
next
  case (Inr res)
  show ?thesis
  proof (cases res)
    case None
    with Inr assms show ?thesis by (simp add: navigation_def)
  next
    case (Some uid)
    with Inr assms show ?thesis
      by (cases "uid = 0") (auto simp add: navigation_def)
  qed
qed

lemma navigation_manager:
  assumes "navigation st (AsManager name ma) = Inr st'"
  shows "st' = st \<or> (\<exists>mid. manager_dashboard st mid ma = Inr st')"
proof (cases "authenticate st name ''manager''")
  case (Inl e)
  with assms show ?thesis by (simp add: navigation_def)
next
  case (Inr res)
  show ?thesis
  proof (cases res)
    case None
    with Inr assms show ?thesis by (simp add: navigation_def)
  next
    case (Some mid)
    with Inr assms show ?thesis
      by (cases "mid = 0") (auto simp add: navigation_def)
  qed
qed

lemma run_script_effect:
  assumes v: "valid_timesheets st" and w: "widgets a"
  shows "\<exists>rows'. timesheets (run_script st a) = Some rows'
                \<and> run_effect a (table_rows (timesheets st)) rows'"
proof (cases "navigation (init_db st) a")
  case (Inl e)
  then show ?thesis
    by (simp add: run_script_def init_db_tables run_effect_same)
next
  case (Inr st')
  let ?st = "init_db st"
  have rs: "run_script st a = st'" using Inr by (simp add: run_script_def)
  have v': "valid_timesheets ?st" using v by (simp add: valid_timesheets_init_db)
  note ts = init_db_tables(3) [of st]
  note pcs = init_db_tables(2) [of st]
  have same: "st' = ?st \<Longrightarrow> ?thesis"
    using rs by (simp add: init_db_tables run_effect_same)
  show ?thesis
  proof (cases a)
    case (AsUser name ua)
    with w have w': "user_widgets ua" by simp
    from Inr AsUser have "st' = ?st \<or> (\<exists>uid. user_dashboard ?st uid ua = Inr st')"
      using navigation_user by simp
    then show ?thesis
    proof
      assume "st' = ?st"
      then show ?thesis by (rule same)
    next
      assume "\<exists>uid. user_dashboard ?st uid ua = Inr st'"
      then obtain uid where 2: "user_dashboard ?st uid ua = Inr st'" ..
      from user_dashboard_effect [OF pcs ts v' w' 2, of name] rs AsUser
      show ?thesis by simp
    qed
  next
    case (AsManager name ma)
    from Inr AsManager have "st' = ?st \<or> (\<exists>mid. manager_dashboard ?st mid ma = Inr st')"
      using navigation_manager by simp
    then show ?thesis
    proof
      assume "st' = ?st"
      then show ?thesis by (rule same)
    next
      assume "\<exists>mid. manager_dashboard ?st mid ma = Inr st'"
      then obtain mid where 2: "manager_dashboard ?st mid ma = Inr st'" ..
      from manager_dashboard_effect [OF ts v' 2, of name] rs AsManager
      show ?thesis by simp
    qed
  qed
qed

lemma project_code_map_lookup:
  assumes d: "distinct (map code pcs)" and p: "p \<in> set pcs"
  shows "map_of (rev (map (\<lambda>(i, c). (c, i)) (map (\<lambda>r. (pc_id r, code r)) pcs))) (code p)
         = Some (pc_id p)"
proof -
  let ?kv = "map (\<lambda>r. (code r, pc_id r)) pcs"
  have eq: "map (\<lambda>(i, c). (c, i)) (map (\<lambda>r. (pc_id r, code r)) pcs) = ?kv" by simp
  have fst: "map fst (rev ?kv) = rev (map code pcs)" by (simp add: rev_map comp_def)
  have "distinct (map fst (rev ?kv))" unfolding fst using d by simp
  moreover have "(code p, pc_id p) \<in> set (rev ?kv)" using p by auto
  ultimately have "map_of (rev ?kv) (code p) = Some (pc_id p)" by (rule map_of_is_SomeI)
  then show ?thesis by (simp only: eq)
qed

text \<open>
  C4. When no timesheet has both the given id and the given owner (the id is someone
  else's, or nobody's), the owner's \<^verbatim>\<open>UPDATE\<close> and \<^verbatim>\<open>DELETE\<close> affect zero rows and return
  the store as it was, and so does "Delete Timesheet" on the dashboard.
\<close>

theorem owner_mismatch_no_effect:
  assumes "timesheets st = Some rows"
    and "\<forall>r \<in> set rows. ts_id r = tid \<longrightarrow> user_id r \<noteq> uid"
  shows "update_timesheet st pcid d h tid uid = Inr (st, 0)
         \<and> delete_timesheet st tid uid = Inr (st, 0)
         \<and> (project_codes st \<noteq> None \<longrightarrow> user_dashboard st uid (DeleteTimesheet tid) = Inr st)"
proof -
  let ?wh = "\<lambda>r. ts_id r = tid \<and> user_id r = uid"
  have none: "\<forall>r \<in> set rows. \<not> ?wh r" using assms(2) by blast
  then have f: "filter ?wh rows = []" by (simp add: filter_empty_conv)
  have g: "filter (\<lambda>r. \<not> ?wh r) rows = rows" using none by (simp add: filter_id_conv)
  have m: "map (\<lambda>r. if ?wh r then upd r else r) rows = rows" for upd
    by (rule map_idI) (use none in auto)
  have u: "update_timesheet st pcid d h tid uid = Inr (st, 0)"
    unfolding update_timesheet_def update_statement [OF assms(1)]
    using none f m assms(1) by auto
  have del: "delete_timesheet st tid uid = Inr (st, 0)"
    unfolding delete_statement [OF assms(1)] using f g assms(1) by simp
  have "user_dashboard st uid (DeleteTimesheet tid) = Inr st" if "project_codes st \<noteq> None"
  proof -
    from that obtain pcs where "project_codes st = Some pcs" by auto
    then show ?thesis
      by (simp add: user_dashboard_def get_project_codes_Some del committed_def)
  qed
  with u del show ?thesis by simp
qed

text \<open>
  "Modify Timesheet" never reaches its \<^verbatim>\<open>UPDATE\<close>: the query of line 131 is given the
  selected row of \<^verbatim>\<open>get_project_codes\<close>, a tuple, or \<^verbatim>\<open>None\<close>, and raises or finds nothing.
\<close>

lemma modify_run_changes_nothing:
  "run_script st (AsUser name (ModifyTimesheet tid project_code d h)) = init_db st"
proof (cases "navigation (init_db st) (AsUser name (ModifyTimesheet tid project_code d h))")
  case (Inl e)
  then show ?thesis by (simp add: run_script_def)
next
  case (Inr st')
  from navigation_user [OF Inr] user_dashboard_modify_raises [of "init_db st" _ tid project_code d h]
  have "st' = init_db st" by (metis Inl_Inr_False)
  with Inr show ?thesis by (simp add: run_script_def)
qed

text \<open>
  C7. With hours in \<open>[0, 24]\<close>, the \<^verbatim>\<open>INSERT\<close> of "Create Timesheet" adds exactly one row,
  at the end of the table and under an id no row had: the given owner, project code, date
  and hours, status \<^verbatim>\<open>pending\<close> and no comment. On the dashboard the project code is the
  id of the selected code.
\<close>

theorem create_timesheet_inserts_pending:
  assumes "timesheets st = Some rows" and "0 \<le> h" and "h \<le> 24"
  shows "insert_timesheet st uid pcid d h ''pending'' =
           Inr (st\<lparr>timesheets := Some (rows @
                 [\<lparr>ts_id = next_rowid (map ts_id rows), user_id = uid, project_code_id = pcid,
                   date = d, hours = h, status = ''pending'', comments = None\<rparr>])\<rparr>, 1)
         \<and> next_rowid (map ts_id rows) \<notin> set (map ts_id rows)
         \<and> (\<forall>pcs p. project_codes st = Some pcs \<and> distinct (map code pcs) \<and> p \<in> set pcs \<longrightarrow>
               user_dashboard st uid (CreateTimesheet (Some (code p)) d h) =
                 Inr (st\<lparr>timesheets := Some (rows @
                   [\<lparr>ts_id = next_rowid (map ts_id rows), user_id = uid,
                     project_code_id = pc_id p, date = d, hours = h, status = ''pending'',
                     comments = None\<rparr>])\<rparr>))"
proof -
  have fresh: "next_rowid (map ts_id rows) \<notin> set (map ts_id rows)"
    using next_rowid_fresh [of "map ts_id rows"] by blast
  have ins: "insert_timesheet st uid pcid d h ''pending'' =
           Inr (st\<lparr>timesheets := Some (rows @
                 [\<lparr>ts_id = next_rowid (map ts_id rows), user_id = uid, project_code_id = pcid,
                   date = d, hours = h, status = ''pending'', comments = None\<rparr>])\<rparr>, 1)" for pcid
    using assms by (simp add: insert_statement status_check_def)
  have "user_dashboard st uid (CreateTimesheet (Some (code p)) d h) =
                 Inr (st\<lparr>timesheets := Some (rows @
                   [\<lparr>ts_id = next_rowid (map ts_id rows), user_id = uid,
                     project_code_id = pc_id p, date = d, hours = h, status = ''pending'',
                     comments = None\<rparr>])\<rparr>)"
    if "project_codes st = Some pcs" "distinct (map code pcs)" "p \<in> set pcs" for pcs p
  proof -
    have d: "distinct (map code (sort_key code pcs))"
      using that(2) by (simp add: distinct_map)
    have p: "p \<in> set (sort_key code pcs)" using that(3) by simp
    from project_code_map_lookup [OF d p] show ?thesis
      by (simp add: user_dashboard_def get_project_codes_Some [OF that(1)] ins committed_def
          del: map_map)
  qed
  with fresh ins show ?thesis by blast
qed

subsection \<open>Invariants of the reachable stores\<close>

lemma same_id_same_row:
  "distinct (map ts_id rows) \<Longrightarrow> r \<in> set rows \<Longrightarrow> r2 \<in> set rows \<Longrightarrow> ts_id r2 = ts_id r \<Longrightarrow> r2 = r"
  by (metis distinct_map inj_on_def)

lemma sorted_ids_append:
  "sorted_wrt (<) ids \<Longrightarrow> sorted_wrt (<) (ids @ [next_rowid ids])"
  using next_rowid_fresh [of ids] by (simp add: sorted_wrt_append)

lemma map_update_ids:
  "map ts_id (map (\<lambda>r. if ts_id r = k then upd r else r) rows) = map ts_id rows"
  if "\<And>r. ts_id (upd r) = ts_id r"
  using that by (induction rows) auto

lemma update_rows_valid:
  assumes s: "sorted_wrt (<) (map ts_id rows)" and c: "list_all timesheet_check rows"
    and i: "\<And>r. ts_id (upd r) = ts_id r"
    and u: "\<And>r. timesheet_check r \<Longrightarrow> timesheet_check (upd r)"
  shows "sorted_wrt (<) (map ts_id (map (\<lambda>r. if ts_id r = k then upd r else r) rows))
         \<and> list_all timesheet_check (map (\<lambda>r. if ts_id r = k then upd r else r) rows)"
proof
  have "map ts_id (map (\<lambda>r. if ts_id r = k then upd r else r) rows) = map ts_id rows"
    by (rule map_update_ids) (rule i)
  then show "sorted_wrt (<) (map ts_id (map (\<lambda>r. if ts_id r = k then upd r else r) rows))"
    using s by (simp only:)
  show "list_all timesheet_check (map (\<lambda>r. if ts_id r = k then upd r else r) rows)"
    using c u by (auto simp add: list_all_iff)
qed

lemma run_effect_valid:
  assumes s: "sorted_wrt (<) (map ts_id rows)" and c: "list_all timesheet_check rows"
    and w: "widgets a" and e: "run_effect a rows rows'"
  shows "sorted_wrt (<) (map ts_id rows') \<and> list_all timesheet_check rows'"
proof -
  from e consider
      (same) "rows' = rows"
    | (create) name pc d h uid pcid where "a = AsUser name (CreateTimesheet pc d h)"
        "rows' = rows @ [\<lparr>ts_id = next_rowid (map ts_id rows), user_id = uid,
                             project_code_id = pcid, date = d, hours = h, status = ''pending'',
                             comments = None\<rparr>]"
    | (delete) wh where "rows' = filter wh rows"
    | (resubmit) name k h where "a = AsUser name (Resubmit k h)"
        "rows' = map (\<lambda>r. if ts_id r = k then r\<lparr>hours := h, status := ''pending''\<rparr> else r) rows"
    | (approve) k c where
        "rows' = map (\<lambda>r. if ts_id r = k then r\<lparr>status := ''approved'', comments := Some c\<rparr> else r) rows"
    | (reject) k c where
        "rows' = map (\<lambda>r. if ts_id r = k then r\<lparr>status := ''rejected'', comments := Some c\<rparr> else r) rows"
    unfolding run_effect_def by blast
  then show ?thesis
  proof cases
    case same
    with s c show ?thesis by simp
  next
    case create
    with w have "0 \<le> h" by (simp add: number_input_def)
    with create s c sorted_ids_append [of "map ts_id rows"] show ?thesis
      by (simp add: timesheet_check_def status_check_def)
  next
    case delete
    with s c show ?thesis
      by (simp add: sorted_wrt_map sorted_wrt_filter list_all_iff)
  next
    case resubmit
    with w have "0 \<le> h" by (simp add: number_input_def)
    with resubmit update_rows_valid [OF s c, of "\<lambda>r. r\<lparr>hours := h, status := ''pending''\<rparr>" k]
    show ?thesis
      by (simp add: timesheet_check_def status_check_def)
  next
    case approve
    with update_rows_valid [OF s c, of "\<lambda>r. r\<lparr>status := ''approved'', comments := Some c\<rparr>" k]
    show ?thesis
      by (simp add: timesheet_check_def status_check_def)
  next
    case reject
    with update_rows_valid [OF s c, of "\<lambda>r. r\<lparr>status := ''rejected'', comments := Some c\<rparr>" k]
    show ?thesis
      by (simp add: timesheet_check_def status_check_def)
  qed
qed

lemma run_effect_hours:
  assumes b: "\<forall>r \<in> set rows. hours r \<le> 24"
    and w: "widgets a" and e: "run_effect a rows rows'"
  shows "\<forall>r \<in> set rows'. hours r \<le> 24"
proof -
  from e consider
      (same) "rows' = rows"
    | (create) name pc d h uid pcid where "a = AsUser name (CreateTimesheet pc d h)"
        "rows' = rows @ [\<lparr>ts_id = next_rowid (map ts_id rows), user_id = uid,
                             project_code_id = pcid, date = d, hours = h, status = ''pending'',
                             comments = None\<rparr>]"
    | (delete) wh where "rows' = filter wh rows"
    | (resubmit) name k h where "a = AsUser name (Resubmit k h)"
        "rows' = map (\<lambda>r. if ts_id r = k then r\<lparr>hours := h, status := ''pending''\<rparr> else r) rows"
    | (approve) k c where
        "rows' = map (\<lambda>r. if ts_id r = k then r\<lparr>status := ''approved'', comments := Some c\<rparr> else r) rows"
    | (reject) k c where
        "rows' = map (\<lambda>r. if ts_id r = k then r\<lparr>status := ''rejected'', comments := Some c\<rparr> else r) rows"
    unfolding run_effect_def by blast
  then show ?thesis
  proof cases
    case same
    with b show ?thesis by simp
  next
    case create
    with w have "h \<le> 24" by (simp add: number_input_def)
    with create b show ?thesis by auto
  next
    case delete
    with b show ?thesis by simp
  next
    case resubmit
    with w have "h \<le> 24" by (simp add: number_input_def)
    with resubmit b show ?thesis by auto
  next
    case approve
    with b show ?thesis by auto
  next
    case reject
    with b show ?thesis by auto
  qed
qed

lemma run_script_valid:
  assumes "valid_timesheets st" and "widgets a"
  shows "valid_timesheets (run_script st a) \<and> timesheets (run_script st a) \<noteq> None"
proof -
  from run_script_effect [OF assms] obtain rows' where
    t: "timesheets (run_script st a) = Some rows'" and
    e: "run_effect a (table_rows (timesheets st)) rows'" by blast
  from assms(1) run_effect_valid [OF _ _ assms(2) e] t show ?thesis
    by (simp add: valid_timesheets_def table_rows_def)
qed

lemma reachable_valid:
  assumes "valid_timesheets st0" and "reachable_from st0 st"
  shows "valid_timesheets st \<and> timesheets st \<noteq> None"
  using assms(2)
proof (induction rule: reachable_from.induct)
  case start
  with assms(1) show ?case by (simp add: valid_timesheets_init_db init_db_tables)
next
  case (run st a)
  then show ?case by (simp add: run_script_valid)
qed

lemma reachable_hours:
  assumes "valid_timesheets st0" and "\<forall>r \<in> set (table_rows (timesheets st0)). hours r \<le> 24"
    and "reachable_from st0 st"
  shows "\<forall>r \<in> set (table_rows (timesheets st)). hours r \<le> 24"
  using assms(3)
proof (induction rule: reachable_from.induct)
  case start
  with assms(2) show ?case by (simp add: init_db_tables table_rows_def)
next
  case (run st a)
  from reachable_valid [OF assms(1) run.hyps(1)] have v: "valid_timesheets st" by simp
  from run_script_effect [OF v run.hyps(2)] obtain rows' where
    t: "timesheets (run_script st a) = Some rows'" and
    e: "run_effect a (table_rows (timesheets st)) rows'" by blast
  from run_effect_hours [OF run.IH run.hyps(2) e] t show ?case
    by (simp add: table_rows_def)
qed

text \<open>
  C1, as the program has it. From a database whose timesheets have at most 24 hours,
  every store the program reaches has its timesheets within \<open>[0, 24]\<close>: the hours come
  from number inputs with these bounds. The \<^verbatim>\<open>INSERT\<close> statement itself refuses negative
  hours with \<^verbatim>\<open>IntegrityError\<close>, inserting nothing; it does not refuse hours above 24.
\<close>

theorem hours_within_bounds:
  assumes "valid_timesheets st0"
    and "\<forall>r \<in> set (table_rows (timesheets st0)). hours r \<le> 24"
    and "reachable_from st0 st"
  shows "(\<exists>rows. timesheets st = Some rows \<and> (\<forall>r \<in> set rows. 0 \<le> hours r \<and> hours r \<le> 24))
         \<and> (\<forall>uid pcid d h s. h < 0 \<longrightarrow> insert_timesheet st uid pcid d h s = Inl IntegrityError)"
proof -
  from reachable_valid [OF assms(1,3)] obtain rows where
    v: "valid_timesheets st" and t: "timesheets st = Some rows" by auto
  have lo: "\<forall>r \<in> set rows. 0 \<le> hours r" using v t by (rule valid_timesheets_hours)
  have hi: "\<forall>r \<in> set rows. hours r \<le> 24"
    using reachable_hours [OF assms] t by (simp add: table_rows_def)
  have "insert_timesheet st uid pcid d h s = Inl IntegrityError" if "h < 0" for uid pcid d h s
    using that by (simp add: insert_statement [OF t])
  with t lo hi show ?thesis by simp
qed

text \<open>
  C9. In every reachable store, a listing of timesheets under any condition returns
  exactly the rows of the table that satisfy it, in strictly ascending order of id, and so
  each row once. So do the three listings of the dashboards, each for its own condition:
  the timesheets of the user, the rejected timesheets of the user (in their four columns),
  and the pending timesheets. No query has an \<^verbatim>\<open>ORDER BY\<close>: the order is that of the scan of
  the table, which is all SQLite can do on a table without an index.
\<close>

theorem listing_in_id_order:
  assumes "valid_timesheets st0" and "reachable_from st0 st"
  shows "(\<exists>rows. select_timesheets wh st = Inr rows
            \<and> sorted_wrt (<) (map ts_id rows)
            \<and> set rows = {r \<in> set (table_rows (timesheets st)). wh r})
         \<and> (\<exists>rows. view_timesheets st uid = Inr rows
            \<and> sorted_wrt (<) (map ts_id rows)
            \<and> set rows = {r \<in> set (table_rows (timesheets st)). user_id r = uid})
         \<and> (\<exists>rows. rejected_timesheets st uid =
                     Inr (map (\<lambda>r. (ts_id r, date r, status r, comments r)) rows)
            \<and> sorted_wrt (<) (map ts_id rows)
            \<and> set rows = {r \<in> set (table_rows (timesheets st)).
                             user_id r = uid \<and> status r = ''rejected''})
         \<and> (\<exists>rows. pending_timesheets st = Inr rows
            \<and> sorted_wrt (<) (map ts_id rows)
            \<and> set rows = {r \<in> set (table_rows (timesheets st)). status r = ''pending''})"
proof -
  from reachable_valid [OF assms] obtain all_rows where
    v: "valid_timesheets st" and t: "timesheets st = Some all_rows" by auto
  from v t have s: "sorted_wrt (<) (map ts_id all_rows)"
    by (simp add: valid_timesheets_def table_rows_def)
  have tr: "table_rows (timesheets st) = all_rows" using t by (simp add: table_rows_def)
  have f: "sorted_wrt (<) (map ts_id (filter p all_rows))" for p
    using s by (simp add: sorted_wrt_map sorted_wrt_filter)
  have m: "set (filter p all_rows) = {r \<in> set all_rows. p r}" for p by simp
  have sel: "select_timesheets p st = Inr (filter p all_rows)" for p
    using t by (simp add: select_timesheets_def sql_select_def)
  have 1: "\<exists>rows. select_timesheets wh st = Inr rows
            \<and> sorted_wrt (<) (map ts_id rows)
            \<and> set rows = {r \<in> set all_rows. wh r}"
    using sel f m by (intro exI [of _ "filter wh all_rows"] conjI)
  have 2: "\<exists>rows. view_timesheets st uid = Inr rows
            \<and> sorted_wrt (<) (map ts_id rows)
            \<and> set rows = {r \<in> set all_rows. user_id r = uid}"
    unfolding view_timesheets_def
    using sel f m by (intro exI [of _ "filter (\<lambda>r. user_id r = uid) all_rows"] conjI)
  have 3: "\<exists>rows. rejected_timesheets st uid =
                     Inr (map (\<lambda>r. (ts_id r, date r, status r, comments r)) rows)
            \<and> sorted_wrt (<) (map ts_id rows)
            \<and> set rows = {r \<in> set all_rows. user_id r = uid \<and> status r = ''rejected''}"
  proof (intro exI [of _ "filter (\<lambda>r. user_id r = uid \<and> status r = ''rejected'') all_rows"] conjI)
    show "rejected_timesheets st uid =
            Inr (map (\<lambda>r. (ts_id r, date r, status r, comments r))
                   (filter (\<lambda>r. user_id r = uid \<and> status r = ''rejected'') all_rows))"
      by (simp only: rejected_timesheets_def sel sum.case)
  qed (rule f, rule m)
  have 4: "\<exists>rows. pending_timesheets st = Inr rows
            \<and> sorted_wrt (<) (map ts_id rows)
            \<and> set rows = {r \<in> set all_rows. status r = ''pending''}"
    unfolding pending_timesheets_def
    using sel f m by (intro exI [of _ "filter (\<lambda>r. status r = ''pending'') all_rows"] conjI)
  from 1 2 3 4 show ?thesis unfolding tr by (intro conjI)
qed

subsection \<open>The workflow\<close>

lemma run_effectE [consumes 1, case_names same create delete resubmit approve reject]:
  assumes "run_effect a rows rows'"
  obtains
      (same) "rows' = rows"
    | (create) name pc d h uid pcid where "a = AsUser name (CreateTimesheet pc d h)"
        "rows' = rows @ [\<lparr>ts_id = next_rowid (map ts_id rows), user_id = uid,
                             project_code_id = pcid, date = d, hours = h, status = ''pending'',
                             comments = None\<rparr>]"
    | (delete) name tid uid where "a = AsUser name (DeleteTimesheet tid)"
        "rows' = filter (\<lambda>r. \<not> (ts_id r = tid \<and> user_id r = uid)) rows"
    | (resubmit) name k h where "a = AsUser name (Resubmit k h)"
        "\<exists>r \<in> set rows. ts_id r = k \<and> status r = ''rejected''"
        "rows' = map (\<lambda>r. if ts_id r = k then r\<lparr>hours := h, status := ''pending''\<rparr> else r) rows"
    | (approve) name k c where "a = AsManager name (Review (ApproveButton k) c)"
        "\<exists>r \<in> set rows. ts_id r = k \<and> status r = ''pending''"
        "rows' = map (\<lambda>r. if ts_id r = k then r\<lparr>status := ''approved'', comments := Some c\<rparr> else r) rows"
    | (reject) name k c where "a = AsManager name (Review (RejectButton k) c)"
        "\<exists>r \<in> set rows. ts_id r = k \<and> status r = ''pending''"
        "rows' = map (\<lambda>r. if ts_id r = k then r\<lparr>status := ''rejected'', comments := Some c\<rparr> else r) rows"
proof -
  from assms have
    "rows' = rows
      \<or> (\<exists>name pc d h uid pcid. a = AsUser name (CreateTimesheet pc d h) \<and>
            rows' = rows @ [\<lparr>ts_id = next_rowid (map ts_id rows), user_id = uid,
                             project_code_id = pcid, date = d, hours = h, status = ''pending'',
                             comments = None\<rparr>])
      \<or> (\<exists>name tid uid. a = AsUser name (DeleteTimesheet tid) \<and>
            rows' = filter (\<lambda>r. \<not> (ts_id r = tid \<and> user_id r = uid)) rows)
      \<or> (\<exists>name k h. a = AsUser name (Resubmit k h) \<and>
            (\<exists>r \<in> set rows. ts_id r = k \<and> status r = ''rejected'') \<and>
            rows' = map (\<lambda>r. if ts_id r = k then r\<lparr>hours := h, status := ''pending''\<rparr> else r) rows)
      \<or> (\<exists>name k c. a = AsManager name (Review (ApproveButton k) c) \<and>
            (\<exists>r \<in> set rows. ts_id r = k \<and> status r = ''pending'') \<and>
            rows' = map (\<lambda>r. if ts_id r = k then r\<lparr>status := ''approved'', comments := Some c\<rparr> else r) rows)
      \<or> (\<exists>name k c. a = AsManager name (Review (RejectButton k) c) \<and>
            (\<exists>r \<in> set rows. ts_id r = k \<and> status r = ''pending'') \<and>
            rows' = map (\<lambda>r. if ts_id r = k then r\<lparr>status := ''rejected'', comments := Some c\<rparr> else r) rows)"
    by (simp only: run_effect_def)
  then show thesis
  proof (elim disjE exE conjE)
    assume "rows' = rows"
    then show thesis by (rule same)
  next
    fix name pc d h uid pcid
    assume "a = AsUser name (CreateTimesheet pc d h)"
      "rows' = rows @ [\<lparr>ts_id = next_rowid (map ts_id rows), user_id = uid,
                             project_code_id = pcid, date = d, hours = h, status = ''pending'',
                             comments = None\<rparr>]"
    then show thesis by (rule create)
  next
    fix name tid uid
    assume "a = AsUser name (DeleteTimesheet tid)"
      "rows' = filter (\<lambda>r. \<not> (ts_id r = tid \<and> user_id r = uid)) rows"
    then show thesis by (rule delete)
  next
    fix name k h
    assume "a = AsUser name (Resubmit k h)"
      "\<exists>r \<in> set rows. ts_id r = k \<and> status r = ''rejected''"
      "rows' = map (\<lambda>r. if ts_id r = k then r\<lparr>hours := h, status := ''pending''\<rparr> else r) rows"
    then show thesis by (rule resubmit)
  next
    fix name k c
    assume "a = AsManager name (Review (ApproveButton k) c)"
      "\<exists>r \<in> set rows. ts_id r = k \<and> status r = ''pending''"
      "rows' = map (\<lambda>r. if ts_id r = k then r\<lparr>status := ''approved'', comments := Some c\<rparr> else r) rows"
    then show thesis by (rule approve)
  next
    fix name k c
    assume "a = AsManager name (Review (RejectButton k) c)"
      "\<exists>r \<in> set rows. ts_id r = k \<and> status r = ''pending''"
      "rows' = map (\<lambda>r. if ts_id r = k then r\<lparr>status := ''rejected'', comments := Some c\<rparr> else r) rows"
    then show thesis by (rule reject)
  qed
qed

lemma update_row_cases:
  assumes d: "distinct (map ts_id rows)" and r: "r \<in> set rows"
    and r': "r' \<in> set (map (\<lambda>r. if ts_id r = k then upd r else r) rows)"
    and i: "ts_id r' = ts_id r"
    and u: "\<And>r. ts_id (upd r) = ts_id r"
  shows "r' = (if ts_id r = k then upd r else r)"
proof -
  from r' obtain r0 where r0: "r0 \<in> set rows"
    and eq: "r' = (if ts_id r0 = k then upd r0 else r0)"
    by auto
  from eq u have "ts_id r' = ts_id r0" by (simp split: if_splits)
  with i have "ts_id r0 = ts_id r" by simp
  with d r r0 have "r0 = r" by (rule same_id_same_row)
  with eq show ?thesis by simp
qed

lemma listed_status:
  assumes d: "distinct (map ts_id rows)" and r: "r \<in> set rows"
    and l: "\<exists>r1 \<in> set rows. ts_id r1 = ts_id r \<and> status r1 = s"
  shows "status r = s"
proof -
  from l obtain r1 where r1: "r1 \<in> set rows" "ts_id r1 = ts_id r" "status r1 = s" by blast
  from d r r1(1,2) have "r1 = r" by (rule same_id_same_row)
  with r1(3) show ?thesis by simp
qed

lemma run_effect_transitions:
  assumes d: "distinct (map ts_id rows)" and e: "run_effect a rows rows'"
    and r: "r \<in> set rows" and r': "r' \<in> set rows'" and i: "ts_id r' = ts_id r"
  shows "status r' = status r
         \<or> (status r = ''pending'' \<and> status r' = ''approved''
              \<and> (\<exists>name c. a = AsManager name (Review (ApproveButton (ts_id r)) c)))
         \<or> (status r = ''pending'' \<and> status r' = ''rejected''
              \<and> (\<exists>name c. a = AsManager name (Review (RejectButton (ts_id r)) c)))
         \<or> (status r = ''rejected'' \<and> status r' = ''pending''
              \<and> (\<exists>name h. a = AsUser name (Resubmit (ts_id r) h)))"
proof -
  from e show ?thesis
  proof (cases rule: run_effectE)
    case same
    with r' have "r' \<in> set rows" by simp
    with d r have "r' = r" using i by (rule same_id_same_row)
    then show ?thesis by simp
  next
    case (create name pc d h uid pcid)
    have "ts_id r < next_rowid (map ts_id rows)"
      using next_rowid_fresh [of "map ts_id rows"] r by simp
    with create(2) r' i have "r' \<in> set rows" by auto
    with d r have "r' = r" using i by (rule same_id_same_row)
    then show ?thesis by simp
  next
    case (delete name tid uid)
    with r' have "r' \<in> set rows" by simp
    with d r have "r' = r" using i by (rule same_id_same_row)
    then show ?thesis by simp
  next
    case (resubmit name k h)
    from r' have "r' \<in> set (map (\<lambda>r. if ts_id r = k then r\<lparr>hours := h, status := ''pending''\<rparr> else r) rows)"
      by (simp only: resubmit(3))
    from update_row_cases [OF d r this i]
    have eq: "r' = (if ts_id r = k then r\<lparr>hours := h, status := ''pending''\<rparr> else r)" by simp
    show ?thesis
    proof (cases "ts_id r = k")
      case True
      with resubmit(2) have "\<exists>r1 \<in> set rows. ts_id r1 = ts_id r \<and> status r1 = ''rejected''" by simp
      with d r have "status r = ''rejected''" by (rule listed_status)
      moreover from eq True have "status r' = ''pending''" by simp
      moreover from resubmit(1) True have "\<exists>name h. a = AsUser name (Resubmit (ts_id r) h)" by simp
      ultimately show ?thesis by (intro disjI2 conjI)
    next
      case False
      with eq show ?thesis by simp
    qed
  next
    case (approve name k c)
    from r' have "r' \<in> set (map (\<lambda>r. if ts_id r = k then r\<lparr>status := ''approved'', comments := Some c\<rparr> else r) rows)"
      by (simp only: approve(3))
    from update_row_cases [OF d r this i]
    have eq: "r' = (if ts_id r = k then r\<lparr>status := ''approved'', comments := Some c\<rparr> else r)" by simp
    show ?thesis
    proof (cases "ts_id r = k")
      case True
      with approve(2) have "\<exists>r1 \<in> set rows. ts_id r1 = ts_id r \<and> status r1 = ''pending''" by simp
      with d r have "status r = ''pending''" by (rule listed_status)
      moreover from eq True have "status r' = ''approved''" by simp
      moreover from approve(1) True
      have "\<exists>name c. a = AsManager name (Review (ApproveButton (ts_id r)) c)" by simp
      ultimately show ?thesis by (intro disjI2 disjI1 conjI)
    next
      case False
      with eq show ?thesis by simp
    qed
  next
    case (reject name k c)
    from r' have "r' \<in> set (map (\<lambda>r. if ts_id r = k then r\<lparr>status := ''rejected'', comments := Some c\<rparr> else r) rows)"
      by (simp only: reject(3))
    from update_row_cases [OF d r this i]
    have eq: "r' = (if ts_id r = k then r\<lparr>status := ''rejected'', comments := Some c\<rparr> else r)" by simp
    show ?thesis
    proof (cases "ts_id r = k")
      case True
      with reject(2) have "\<exists>r1 \<in> set rows. ts_id r1 = ts_id r \<and> status r1 = ''pending''" by simp
      with d r have "status r = ''pending''" by (rule listed_status)
      moreover from eq True have "status r' = ''rejected''" by simp
      moreover from reject(1) True
      have "\<exists>name c. a = AsManager name (Review (RejectButton (ts_id r)) c)" by simp
      ultimately show ?thesis by (intro disjI2 disjI1 conjI)
    next
      case False
      with eq show ?thesis by simp
    qed
  qed
qed

lemma update_keeps_ids:
  assumes r': "r' \<in> set (map (\<lambda>r. if ts_id r = k then upd r else r) rows)"
    and u: "\<And>r. ts_id (upd r) = ts_id r"
  shows "ts_id r' \<in> ts_id ` set rows"
proof -
  from r' obtain r0 where "r0 \<in> set rows" "r' = (if ts_id r0 = k then upd r0 else r0)"
    by auto
  with u show ?thesis by (auto split: if_splits)
qed

lemma run_effect_new_row:
  assumes e: "run_effect a rows rows'"
    and r': "r' \<in> set rows'" and i: "ts_id r' \<notin> ts_id ` set rows"
  shows "status r' = ''pending'' \<and> comments r' = None
         \<and> (\<exists>name pc d h. a = AsUser name (CreateTimesheet pc d h))"
  using e
proof (cases rule: run_effectE)
  case same
  with r' i show ?thesis by simp
next
  case (create name pc d h uid pcid)
  from r' i create(2) have "r' = \<lparr>ts_id = next_rowid (map ts_id rows), user_id = uid,
                             project_code_id = pcid, date = d, hours = h, status = ''pending'',
                             comments = None\<rparr>" by auto
  with create(1) show ?thesis by simp
next
  case (delete name tid uid)
  with r' i show ?thesis by simp
next
  case (resubmit name k h)
  from r' have "r' \<in> set (map (\<lambda>r. if ts_id r = k then r\<lparr>hours := h, status := ''pending''\<rparr> else r) rows)"
    by (simp only: resubmit(3))
  then have "ts_id r' \<in> ts_id ` set rows" by (rule update_keeps_ids) simp
  with i show ?thesis by simp
next
  case (approve name k c)
  from r' have "r' \<in> set (map (\<lambda>r. if ts_id r = k then r\<lparr>status := ''approved'', comments := Some c\<rparr> else r) rows)"
    by (simp only: approve(3))
  then have "ts_id r' \<in> ts_id ` set rows" by (rule update_keeps_ids) simp
  with i show ?thesis by simp
next
  case (reject name k c)
  from r' have "r' \<in> set (map (\<lambda>r. if ts_id r = k then r\<lparr>status := ''rejected'', comments := Some c\<rparr> else r) rows)"
    by (simp only: reject(3))
  then have "ts_id r' \<in> ts_id ` set rows" by (rule update_keeps_ids) simp
  with i show ?thesis by simp
qed

text \<open>
  C2. In every reachable store, one run of the script changes the status of a timesheet
  only along the workflow: approve takes \<^verbatim>\<open>pending\<close> to \<^verbatim>\<open>approved\<close>, reject takes \<^verbatim>\<open>pending\<close> to
  \<^verbatim>\<open>rejected\<close>, resubmit takes \<^verbatim>\<open>rejected\<close> to \<^verbatim>\<open>pending\<close>, each by its own button on that
  timesheet; an approved timesheet that is still there is still approved; and a timesheet
  under an id that was not there comes from "Create Timesheet", pending and without a
  comment.
\<close>

theorem status_follows_transitions:
  assumes "valid_timesheets st0" and "reachable_from st0 st" and "widgets a"
  shows "(\<forall>r \<in> set (table_rows (timesheets st)).
          \<forall>r' \<in> set (table_rows (timesheets (run_script st a))).
            ts_id r' = ts_id r \<longrightarrow>
              (status r' = status r
               \<or> (status r = ''pending'' \<and> status r' = ''approved''
                    \<and> (\<exists>name c. a = AsManager name (Review (ApproveButton (ts_id r)) c)))
               \<or> (status r = ''pending'' \<and> status r' = ''rejected''
                    \<and> (\<exists>name c. a = AsManager name (Review (RejectButton (ts_id r)) c)))
               \<or> (status r = ''rejected'' \<and> status r' = ''pending''
                    \<and> (\<exists>name h. a = AsUser name (Resubmit (ts_id r) h))))
              \<and> (status r = ''approved'' \<longrightarrow> status r' = ''approved''))
         \<and> (\<forall>r' \<in> set (table_rows (timesheets (run_script st a))).
              ts_id r' \<notin> ts_id ` set (table_rows (timesheets st)) \<longrightarrow>
                status r' = ''pending'' \<and> comments r' = None
                \<and> (\<exists>name pc d h. a = AsUser name (CreateTimesheet pc d h)))"
proof -
  from reachable_valid [OF assms(1,2)] obtain rows where
    v: "valid_timesheets st" and t: "timesheets st = Some rows" by auto
  have d: "distinct (map ts_id rows)" using v t by (rule valid_timesheets_distinct)
  from run_script_effect [OF v assms(3)] t obtain rows' where
    t': "timesheets (run_script st a) = Some rows'" and
    e: "run_effect a rows rows'" by (auto simp add: table_rows_def)
  have tr: "table_rows (timesheets st) = rows" "table_rows (timesheets (run_script st a)) = rows'"
    using t t' by (simp_all add: table_rows_def)
  show ?thesis
    unfolding tr
  proof (intro conjI ballI impI)
    fix r r' assume "r \<in> set rows" "r' \<in> set rows'" "ts_id r' = ts_id r"
    then show "status r' = status r
         \<or> (status r = ''pending'' \<and> status r' = ''approved''
              \<and> (\<exists>name c. a = AsManager name (Review (ApproveButton (ts_id r)) c)))
         \<or> (status r = ''pending'' \<and> status r' = ''rejected''
              \<and> (\<exists>name c. a = AsManager name (Review (RejectButton (ts_id r)) c)))
         \<or> (status r = ''rejected'' \<and> status r' = ''pending''
              \<and> (\<exists>name h. a = AsUser name (Resubmit (ts_id r) h)))"
      by (rule run_effect_transitions [OF d e])
  next
    fix r r' assume m: "r \<in> set rows" "r' \<in> set rows'" "ts_id r' = ts_id r"
      and ap: "status r = ''approved''"
    from run_effect_transitions [OF d e m] ap show "status r' = ''approved''"
      by (elim disjE conjE) simp_all
  next
    fix r' assume "r' \<in> set rows'" "ts_id r' \<notin> ts_id ` set rows"
    with e have n: "status r' = ''pending'' \<and> comments r' = None
         \<and> (\<exists>name pc d h. a = AsUser name (CreateTimesheet pc d h))"
      by (rule run_effect_new_row)
    from n show "status r' = ''pending''" by (rule conjunct1)
    from n show "comments r' = None" by (elim conjE)
    from n show "\<exists>name pc d h. a = AsUser name (CreateTimesheet pc d h)" by (elim conjE)
  qed
qed

text \<open>
  C3. When its owner resubmits a rejected timesheet from "Respond to Comments", the run
  succeeds; that row gets the new hours and the status \<^verbatim>\<open>pending\<close> and keeps its date, its
  project code, the manager's comment, its owner and its id; every other row is unchanged.
\<close>

theorem resubmit_rejected_timesheet:
  assumes pcs: "project_codes st = Some pcs" and ts: "timesheets st = Some rows"
    and v: "valid_timesheets st"
    and r: "r \<in> set rows" and rej: "status r = ''rejected''" and own: "user_id r = uid"
    and w: "number_input 0 24 h"
  shows "\<exists>rows'. user_dashboard st uid (Resubmit (ts_id r) h) = Inr (st\<lparr>timesheets := Some rows'\<rparr>)
           \<and> length rows' = length rows
           \<and> (\<forall>i < length rows.
                 (rows ! i = r \<longrightarrow>
                    hours (rows' ! i) = h \<and> status (rows' ! i) = ''pending''
                    \<and> date (rows' ! i) = date r
                    \<and> project_code_id (rows' ! i) = project_code_id r
                    \<and> comments (rows' ! i) = comments r
                    \<and> user_id (rows' ! i) = user_id r \<and> ts_id (rows' ! i) = ts_id r)
                 \<and> (rows ! i \<noteq> r \<longrightarrow> rows' ! i = rows ! i))"
proof -
  let ?rows' = "map (\<lambda>x. if ts_id x = ts_id r then x\<lparr>hours := h, status := ''pending''\<rparr> else x) rows"
  have d: "distinct (map ts_id rows)" using v ts by (rule valid_timesheets_distinct)
  from w have h: "0 \<le> h" by (simp add: number_input_def)
  from r rej own have listed: "\<exists>x \<in> set rows. ts_id x = ts_id r \<and> user_id x = uid \<and> status x = ''rejected''"
    by blast
  have run: "user_dashboard st uid (Resubmit (ts_id r) h) = Inr (st\<lparr>timesheets := Some ?rows'\<rparr>)"
    using listed
    by (simp add: user_dashboard_resubmit [OF pcs ts d] resubmit_statement [OF ts h] committed_def)
  have other: "ts_id (rows ! i) \<noteq> ts_id r" if "i < length rows" "rows ! i \<noteq> r" for i
  proof
    assume "ts_id (rows ! i) = ts_id r"
    moreover from that(1) have "rows ! i \<in> set rows" by simp
    ultimately have "rows ! i = r" using d r by (intro same_id_same_row)
    with that(2) show False by simp
  qed
  have frame: "\<forall>i < length rows.
                 (rows ! i = r \<longrightarrow>
                    hours (?rows' ! i) = h \<and> status (?rows' ! i) = ''pending''
                    \<and> date (?rows' ! i) = date r
                    \<and> project_code_id (?rows' ! i) = project_code_id r
                    \<and> comments (?rows' ! i) = comments r
                    \<and> user_id (?rows' ! i) = user_id r \<and> ts_id (?rows' ! i) = ts_id r)
                 \<and> (rows ! i \<noteq> r \<longrightarrow> ?rows' ! i = rows ! i)"
    using other by simp
  from run frame show ?thesis
    by (intro exI [of _ ?rows'] conjI) simp_all
qed

text \<open>
  C8. The \<^verbatim>\<open>UPDATE\<close> of the resubmission selects on the id alone: on every row with that id,
  whatever its status and its owner, it sets the hours and the status \<^verbatim>\<open>pending\<close>. The
  two preconditions are in the listing of the dashboard only: for an id that is not a
  rejected timesheet of the user, no button is there and the run changes nothing.
\<close>

theorem resubmit_update_guarded_by_id_only:
  assumes ts: "timesheets st = Some rows" and h: "0 \<le> h"
  shows "(\<exists>rows'. resubmit_timesheet st h tid =
              Inr (st\<lparr>timesheets := Some rows'\<rparr>, length (filter (\<lambda>r. ts_id r = tid) rows))
            \<and> length rows' = length rows
            \<and> (\<forall>i < length rows.
                  (ts_id (rows ! i) = tid \<longrightarrow>
                     rows' ! i = (rows ! i)\<lparr>hours := h, status := ''pending''\<rparr>)
                  \<and> (ts_id (rows ! i) \<noteq> tid \<longrightarrow> rows' ! i = rows ! i)))
         \<and> (project_codes st \<noteq> None \<and> distinct (map ts_id rows)
              \<and> (\<forall>r \<in> set rows. ts_id r = tid \<longrightarrow> \<not> (user_id r = uid \<and> status r = ''rejected''))
              \<longrightarrow> user_dashboard st uid (Resubmit tid h) = Inr st)"
proof (intro conjI impI)
  let ?rows' = "map (\<lambda>x. if ts_id x = tid then x\<lparr>hours := h, status := ''pending''\<rparr> else x) rows"
  show "\<exists>rows'. resubmit_timesheet st h tid =
              Inr (st\<lparr>timesheets := Some rows'\<rparr>, length (filter (\<lambda>r. ts_id r = tid) rows))
            \<and> length rows' = length rows
            \<and> (\<forall>i < length rows.
                  (ts_id (rows ! i) = tid \<longrightarrow>
                     rows' ! i = (rows ! i)\<lparr>hours := h, status := ''pending''\<rparr>)
                  \<and> (ts_id (rows ! i) \<noteq> tid \<longrightarrow> rows' ! i = rows ! i))"
    by (intro exI [of _ ?rows'] conjI) (simp_all add: resubmit_statement [OF ts h])
next
  assume a: "project_codes st \<noteq> None \<and> distinct (map ts_id rows)
              \<and> (\<forall>r \<in> set rows. ts_id r = tid \<longrightarrow> \<not> (user_id r = uid \<and> status r = ''rejected''))"
  then obtain pcs where pcs: "project_codes st = Some pcs" by auto
  from a have d: "distinct (map ts_id rows)" by simp
  from a have "\<not> (\<exists>r \<in> set rows. ts_id r = tid \<and> user_id r = uid \<and> status r = ''rejected'')"
    by blast
  then show "user_dashboard st uid (Resubmit tid h) = Inr st"
    by (simp only: user_dashboard_resubmit [OF pcs ts d] if_False)
qed

section \<open>The properties on the example database\<close>

lemmas store_defs = seeded_store_def worked_store_def rejected_row_def approved_row_def pending_row_def

lemma worked_store_valid: "valid_timesheets worked_store"
  by (simp add: valid_timesheets_def table_rows_def store_defs timesheet_check_def status_check_def)

lemma seeded_store_valid: "valid_timesheets seeded_store"
  by (simp add: valid_timesheets_def table_rows_def store_defs)

theorem init_db_idempotent_witness:
  "(init_db ^^ Suc 2) empty_store = init_db empty_store
   \<and> timesheets empty_store = None \<and> timesheets (init_db empty_store) = Some []
   \<and> users seeded_store \<noteq> None \<and> project_codes seeded_store \<noteq> None
   \<and> timesheets seeded_store \<noteq> None \<and> init_db seeded_store = seeded_store"
  using init_db_idempotent [of 2 empty_store] init_db_idempotent [of 0 seeded_store]
  by (simp add: empty_store_def seeded_store_def init_db_def create_table_if_not_exists_def
      del: funpow.simps)

theorem authenticate_lookup_witness:
  "users seeded_store =
     Some [\<lparr>u_id = 1, username = ''bob'', role = ''manager''\<rparr>,
           \<lparr>u_id = 2, username = ''alice'', role = ''user''\<rparr>]
   \<and> authenticate seeded_store ''alice'' ''user'' = Inr (Some 2)
   \<and> authenticate seeded_store ''alice'' ''manager'' = Inr None
   \<and> authenticate worked_store ''alice'' ''user'' = authenticate seeded_store ''alice'' ''user''"
proof -
  have u: "users seeded_store =
     Some [\<lparr>u_id = 1, username = ''bob'', role = ''manager''\<rparr>,
           \<lparr>u_id = 2, username = ''alice'', role = ''user''\<rparr>]"
    by (simp add: seeded_store_def)
  note L = authenticate_lookup [OF u, of "''alice''" "''user''"]
  have a: "authenticate seeded_store ''alice'' ''user'' = Inr (Some 2)"
    using L [THEN conjunct2, THEN conjunct1] by simp
  have b: "authenticate seeded_store ''alice'' ''manager'' = Inr None"
    by (simp add: authenticate_def sql_select_def seeded_store_def)
  have "users worked_store = users seeded_store" by (simp add: worked_store_def)
  with L [THEN conjunct2, THEN conjunct2]
  have c: "authenticate worked_store ''alice'' ''user'' = authenticate seeded_store ''alice'' ''user''"
    by blast
  from u a b c show ?thesis by simp
qed

theorem owner_mismatch_no_effect_witness:
  "timesheets worked_store = Some [rejected_row, approved_row, pending_row]
   \<and> ts_id rejected_row = 1 \<and> user_id rejected_row = 2
   \<and> update_timesheet worked_store 1 ''2024-02-01'' 3 1 1 = Inr (worked_store, 0)
   \<and> delete_timesheet worked_store 1 1 = Inr (worked_store, 0)
   \<and> delete_timesheet worked_store 9 2 = Inr (worked_store, 0)
   \<and> user_dashboard worked_store 1 (DeleteTimesheet 1) = Inr worked_store"
proof -
  have t: "timesheets worked_store = Some [rejected_row, approved_row, pending_row]"
    by (simp add: worked_store_def)
  have m: "\<forall>r \<in> set [rejected_row, approved_row, pending_row]. ts_id r = 1 \<longrightarrow> user_id r \<noteq> 1"
    by (simp add: store_defs)
  have n: "\<forall>r \<in> set [rejected_row, approved_row, pending_row]. ts_id r = 9 \<longrightarrow> user_id r \<noteq> 2"
    by (simp add: store_defs)
  have p: "project_codes worked_store \<noteq> None"
    by (simp add: worked_store_def seeded_store_def)
  from owner_mismatch_no_effect [OF t m, of 1 "''2024-02-01''" 3]
    owner_mismatch_no_effect [OF t n, of 1 "''2024-02-01''" 3] t p
  show ?thesis by (simp add: rejected_row_def)
qed

theorem create_timesheet_inserts_pending_witness:
  "timesheets seeded_store = Some [] \<and> (0::real) \<le> 8 \<and> (8::real) \<le> 24
   \<and> insert_timesheet seeded_store 2 1 ''2024-01-05'' 8 ''pending'' =
       Inr (seeded_store\<lparr>timesheets := Some
              [\<lparr>ts_id = 1, user_id = 2, project_code_id = 1, date = ''2024-01-05'', hours = 8,
                status = ''pending'', comments = None\<rparr>]\<rparr>, 1)
   \<and> user_dashboard seeded_store 2 (CreateTimesheet (Some ''ENG'') ''2024-01-05'' 8) =
       Inr created_store"
proof -
  let ?eng = "\<lparr>pc_id = 1, code = ''ENG'', description = Some ''Engineering''\<rparr>"
  have t: "timesheets seeded_store = Some []" by (simp add: seeded_store_def)
  have p: "project_codes seeded_store = Some [?eng]" by (simp add: seeded_store_def)
  have h: "(0::real) \<le> 8" "(8::real) \<le> 24" by simp_all
  note C = create_timesheet_inserts_pending [OF t h, of 2 _ "''2024-01-05''"]
  have 1: "insert_timesheet seeded_store 2 1 ''2024-01-05'' 8 ''pending'' =
       Inr (seeded_store\<lparr>timesheets := Some
              [\<lparr>ts_id = 1, user_id = 2, project_code_id = 1, date = ''2024-01-05'', hours = 8,
                status = ''pending'', comments = None\<rparr>]\<rparr>, 1)"
    using C [of 1, THEN conjunct1] by (simp add: next_rowid_def)
  have 2: "user_dashboard seeded_store 2 (CreateTimesheet (Some ''ENG'') ''2024-01-05'' 8) =
       Inr created_store"
    using C [of 1, THEN conjunct2, THEN conjunct2, rule_format, of "[?eng]" ?eng] p
    by (simp add: next_rowid_def created_store_def)
  from t 1 2 show ?thesis by simp
qed

theorem review_changes_status_and_comment_only_witness:
  "timesheets worked_store = Some [rejected_row, approved_row, pending_row]
   \<and> valid_timesheets worked_store
   \<and> approve_timesheet worked_store ''fine'' 3 =
       Inr (worked_store\<lparr>timesheets := Some [rejected_row, approved_row,
              pending_row\<lparr>status := ''approved'', comments := Some ''fine''\<rparr>]\<rparr>, 1)
   \<and> reject_timesheet worked_store ''too few'' 3 =
       Inr (worked_store\<lparr>timesheets := Some [rejected_row, approved_row,
              pending_row\<lparr>status := ''rejected'', comments := Some ''too few''\<rparr>]\<rparr>, 1)"
proof -
  have t: "timesheets worked_store = Some [rejected_row, approved_row, pending_row]"
    by (simp add: worked_store_def)
  have h: "\<forall>r \<in> set [rejected_row, approved_row, pending_row]. 0 \<le> hours r"
    by (simp add: store_defs)
  have a: "approve_timesheet worked_store ''fine'' 3 =
       Inr (worked_store\<lparr>timesheets := Some [rejected_row, approved_row,
              pending_row\<lparr>status := ''approved'', comments := Some ''fine''\<rparr>]\<rparr>, 1)"
    by (simp add: approve_statement [OF t h]) (simp add: store_defs)
  have b: "reject_timesheet worked_store ''too few'' 3 =
       Inr (worked_store\<lparr>timesheets := Some [rejected_row, approved_row,
              pending_row\<lparr>status := ''rejected'', comments := Some ''too few''\<rparr>]\<rparr>, 1)"
    by (simp add: reject_statement [OF t h]) (simp add: store_defs)
  from review_changes_status_and_comment_only [OF t worked_store_valid, of "''fine''" 3] t a b
  show ?thesis by (simp add: worked_store_valid)
qed

lemma init_db_seeded: "init_db seeded_store = seeded_store"
  by (rule init_db_fixed) (simp_all add: seeded_store_def)

lemma authenticate_alice: "authenticate seeded_store ''alice'' ''user'' = Inr (Some 2)"
  by (simp add: authenticate_def sql_select_def seeded_store_def)

lemma create_on_seeded:
  "run_script seeded_store (AsUser ''alice'' (CreateTimesheet (Some ''ENG'') ''2024-01-05'' 8))
   = created_store"
proof -
  have pcs: "project_codes seeded_store = Some [\<lparr>pc_id = 1, code = ''ENG'', description = Some ''Engineering''\<rparr>]"
    by (simp add: seeded_store_def)
  have t: "timesheets seeded_store = Some []" by (simp add: seeded_store_def)
  have "user_dashboard seeded_store 2 (CreateTimesheet (Some ''ENG'') ''2024-01-05'' 8) = Inr created_store"
    by (simp add: user_dashboard_def get_project_codes_Some [OF pcs] insert_statement [OF t]
        status_check_def committed_def next_rowid_def created_store_def)
  then show ?thesis
    by (simp add: run_script_def init_db_seeded navigation_def authenticate_alice)
qed

lemma created_reachable: "reachable_from seeded_store created_store"
proof -
  have "reachable_from seeded_store seeded_store"
    using reachable_from.start [of seeded_store] by (simp add: init_db_seeded)
  moreover have "widgets (AsUser ''alice'' (CreateTimesheet (Some ''ENG'') ''2024-01-05'' 8))"
    by (simp add: number_input_def)
  ultimately have "reachable_from seeded_store
      (run_script seeded_store (AsUser ''alice'' (CreateTimesheet (Some ''ENG'') ''2024-01-05'' 8)))"
    by (rule reachable_from.run)
  then show ?thesis by (simp only: create_on_seeded)
qed

theorem hours_within_bounds_witness:
  "valid_timesheets seeded_store
   \<and> table_rows (timesheets seeded_store) = []
   \<and> reachable_from seeded_store created_store
   \<and> (\<exists>rows. timesheets created_store = Some rows \<and> rows \<noteq> []
         \<and> (\<forall>r \<in> set rows. 0 \<le> hours r \<and> hours r \<le> 24))
   \<and> insert_timesheet created_store 2 1 ''2024-01-06'' (- 1) ''pending'' = Inl IntegrityError"
proof -
  have b: "\<forall>r \<in> set (table_rows (timesheets seeded_store)). hours r \<le> 24"
    by (simp add: seeded_store_def table_rows_def)
  note H = hours_within_bounds [OF seeded_store_valid b created_reachable]
  from H [THEN conjunct1] have 1: "\<exists>rows. timesheets created_store = Some rows \<and> rows \<noteq> []
         \<and> (\<forall>r \<in> set rows. 0 \<le> hours r \<and> hours r \<le> 24)"
    by (auto simp add: created_store_def)
  from H [THEN conjunct2] have 2:
    "insert_timesheet created_store 2 1 ''2024-01-06'' (- 1) ''pending'' = Inl IntegrityError"
    by simp
  have e: "table_rows (timesheets seeded_store) = []"
    by (simp add: seeded_store_def table_rows_def)
  from seeded_store_valid e created_reachable 1 2 show ?thesis by (intro conjI)
qed

theorem hours_above_24_counterexample:
  "insert_timesheet seeded_store 2 1 ''2024-01-05'' 25 ''pending'' =
     Inr (seeded_store\<lparr>timesheets := Some
            [\<lparr>ts_id = 1, user_id = 2, project_code_id = 1, date = ''2024-01-05'', hours = 25,
              status = ''pending'', comments = None\<rparr>]\<rparr>, 1)"
proof -
  have t: "timesheets seeded_store = Some []" by (simp add: seeded_store_def)
  show ?thesis
    by (simp add: insert_statement [OF t] status_check_def next_rowid_def)
qed

lemma team_project_codes: "get_project_codes team_store = Inr [(2, ''ABC''), (1, ''ENG'')]"
  by (simp add: get_project_codes_def sql_select_def team_store_def)

lemma team_store_valid: "valid_timesheets team_store"
  by (simp add: valid_timesheets_def table_rows_def team_store_def team_rows_def
      timesheet_check_def status_check_def)

lemma init_db_team: "init_db team_store = team_store"
  by (rule init_db_fixed) (simp_all add: team_store_def)

lemma create_on_team:
  "run_script team_store (AsUser ''alice'' (CreateTimesheet (Some ''ABC'') ''2024-01-10'' 6))
   = team_store\<lparr>timesheets := Some team_rows_after\<rparr>"
proof -
  have a: "authenticate team_store ''alice'' ''user'' = Inr (Some 2)"
    by (simp add: authenticate_def sql_select_def team_store_def)
  have t: "timesheets team_store = Some team_rows" by (simp add: team_store_def)
  have n: "next_rowid (map ts_id team_rows) = 5"
    by (simp add: next_rowid_def team_rows_def)
  have "user_dashboard team_store 2 (CreateTimesheet (Some ''ABC'') ''2024-01-10'' 6)
        = Inr (team_store\<lparr>timesheets := Some team_rows_after\<rparr>)"
    by (simp add: user_dashboard_def team_project_codes insert_statement [OF t] n
        status_check_def committed_def team_rows_after_def)
  then show ?thesis
    by (simp add: run_script_def init_db_team navigation_def a)
qed

theorem listing_in_id_order_witness:
  "valid_timesheets team_store
   \<and> reachable_from team_store (team_store\<lparr>timesheets := Some team_rows_after\<rparr>)
   \<and> map ts_id team_rows_after = [1, 2, 3, 4, 5]
   \<and> map user_id team_rows_after = [2, 3, 2, 3, 2]
   \<and> map status team_rows_after = [''rejected'', ''pending'', ''pending'', ''rejected'', ''pending'']
   \<and> view_timesheets (team_store\<lparr>timesheets := Some team_rows_after\<rparr>) 2 =
        Inr [team_rows_after ! 0, team_rows_after ! 2, team_rows_after ! 4]
   \<and> view_timesheets (team_store\<lparr>timesheets := Some team_rows_after\<rparr>) 3 =
        Inr [team_rows_after ! 1, team_rows_after ! 3]
   \<and> pending_timesheets (team_store\<lparr>timesheets := Some team_rows_after\<rparr>) =
        Inr [team_rows_after ! 1, team_rows_after ! 2, team_rows_after ! 4]
   \<and> rejected_timesheets (team_store\<lparr>timesheets := Some team_rows_after\<rparr>) 3 =
        Inr [(4, ''2024-01-08'', ''rejected'', Some ''too few'')]
   \<and> (\<exists>rows. view_timesheets (team_store\<lparr>timesheets := Some team_rows_after\<rparr>) 2 = Inr rows
         \<and> sorted_wrt (<) (map ts_id rows)
         \<and> set rows = {r \<in> set (table_rows (timesheets (team_store\<lparr>timesheets := Some team_rows_after\<rparr>))).
                          user_id r = 2})"
proof -
  let ?st = "team_store\<lparr>timesheets := Some team_rows_after\<rparr>"
  have w: "widgets (AsUser ''alice'' (CreateTimesheet (Some ''ABC'') ''2024-01-10'' 6))"
    by (simp add: number_input_def)
  have "reachable_from team_store team_store"
    using reachable_from.start [of team_store] by (simp add: init_db_team)
  from reachable_from.run [OF this w] have r: "reachable_from team_store ?st"
    by (simp only: create_on_team)
  note L = listing_in_id_order [OF team_store_valid r, of _ 2]
  have ids: "map ts_id team_rows_after = [1, 2, 3, 4, 5]"
    and owners: "map user_id team_rows_after = [2, 3, 2, 3, 2]"
    and statuses: "map status team_rows_after =
        [''rejected'', ''pending'', ''pending'', ''rejected'', ''pending'']"
    by (simp_all add: team_rows_after_def team_rows_def)
  have v2: "view_timesheets ?st 2 = Inr [team_rows_after ! 0, team_rows_after ! 2, team_rows_after ! 4]"
    by (simp add: view_timesheets_def select_timesheets_def sql_select_def team_rows_after_def
        team_rows_def)
  have v3: "view_timesheets ?st 3 = Inr [team_rows_after ! 1, team_rows_after ! 3]"
    by (simp add: view_timesheets_def select_timesheets_def sql_select_def team_rows_after_def
        team_rows_def)
  have p: "pending_timesheets ?st = Inr [team_rows_after ! 1, team_rows_after ! 2, team_rows_after ! 4]"
    by (simp add: pending_timesheets_def select_timesheets_def sql_select_def team_rows_after_def
        team_rows_def)
  have j: "rejected_timesheets ?st 3 = Inr [(4, ''2024-01-08'', ''rejected'', Some ''too few'')]"
    by (simp add: rejected_timesheets_def select_timesheets_def sql_select_def team_rows_after_def
        team_rows_def)
  from team_store_valid r ids owners statuses v2 v3 p j L [THEN conjunct2, THEN conjunct1]
  show ?thesis by (intro conjI)
qed

lemma worked_tables:
  "timesheets worked_store = Some [rejected_row, approved_row, pending_row]"
  "project_codes worked_store = Some [\<lparr>pc_id = 1, code = ''ENG'', description = Some ''Engineering''\<rparr>]"
  by (simp_all add: worked_store_def seeded_store_def)

lemma init_db_worked: "init_db worked_store = worked_store"
  by (rule init_db_fixed) (simp_all add: worked_store_def seeded_store_def)

lemma worked_reachable: "reachable_from worked_store worked_store"
  using reachable_from.start [of worked_store] by (simp add: init_db_worked)

lemma authenticate_worked:
  "authenticate worked_store ''alice'' ''user'' = Inr (Some 2)"
  "authenticate worked_store ''bob'' ''manager'' = Inr (Some 1)"
  by (simp_all add: authenticate_def sql_select_def worked_store_def seeded_store_def)

lemma worked_distinct: "distinct (map ts_id [rejected_row, approved_row, pending_row])"
  by (simp add: store_defs)

lemma worked_hours: "\<forall>r \<in> set [rejected_row, approved_row, pending_row]. 0 \<le> hours r"
  by (simp add: store_defs)

lemma approve_on_worked:
  "run_script worked_store (AsManager ''bob'' (Review (ApproveButton 3) ''fine'')) =
     worked_store\<lparr>timesheets := Some [rejected_row, approved_row,
        pending_row\<lparr>status := ''approved'', comments := Some ''fine''\<rparr>]\<rparr>"
proof -
  have "manager_dashboard worked_store 1 (Review (ApproveButton 3) ''fine'') =
     Inr (worked_store\<lparr>timesheets := Some [rejected_row, approved_row,
        pending_row\<lparr>status := ''approved'', comments := Some ''fine''\<rparr>]\<rparr>)"
    by (simp add: manager_dashboard_approve [OF worked_tables(1) worked_distinct]
        approve_statement [OF worked_tables(1) worked_hours] committed_def)
       (simp add: store_defs)
  then show ?thesis
    by (simp add: run_script_def init_db_worked navigation_def authenticate_worked)
qed

lemma resubmit_approved_on_worked:
  "run_script worked_store (AsUser ''alice'' (Resubmit 2 5)) = worked_store"
proof -
  have "user_dashboard worked_store 2 (Resubmit 2 5) = Inr worked_store"
    by (simp add: user_dashboard_resubmit [OF worked_tables(2) worked_tables(1) worked_distinct])
       (simp add: store_defs)
  then show ?thesis
    by (simp add: run_script_def init_db_worked navigation_def authenticate_worked)
qed

theorem status_follows_transitions_witness:
  "valid_timesheets worked_store \<and> reachable_from worked_store worked_store
   \<and> widgets (AsManager ''bob'' (Review (ApproveButton 3) ''fine''))
   \<and> widgets (AsUser ''alice'' (Resubmit 2 5))
   \<and> timesheets (run_script worked_store (AsManager ''bob'' (Review (ApproveButton 3) ''fine''))) =
       Some [rejected_row, approved_row, pending_row\<lparr>status := ''approved'', comments := Some ''fine''\<rparr>]
   \<and> timesheets (run_script worked_store (AsUser ''alice'' (Resubmit 2 5))) =
       Some [rejected_row, approved_row, pending_row]
   \<and> list_all (\<lambda>r'. ts_id r' = ts_id approved_row \<longrightarrow> status r' = ''approved'')
         (table_rows (timesheets (run_script worked_store (AsUser ''alice'' (Resubmit 2 5)))))"
proof -
  have w1: "widgets (AsManager ''bob'' (Review (ApproveButton 3) ''fine''))" by simp
  have w2: "widgets (AsUser ''alice'' (Resubmit 2 5))" by (simp add: number_input_def)
  note T = status_follows_transitions [OF worked_store_valid worked_reachable w2, THEN conjunct1]
  have m: "approved_row \<in> set (table_rows (timesheets worked_store))"
    by (simp add: worked_tables table_rows_def)
  have s: "status approved_row = ''approved''" by (simp add: approved_row_def)
  from T [rule_format, OF m, THEN conjunct2] s
  have "\<forall>r' \<in> set (table_rows (timesheets (run_script worked_store (AsUser ''alice'' (Resubmit 2 5))))).
         ts_id r' = ts_id approved_row \<longrightarrow> status r' = ''approved''"
    by blast
  then have 3: "list_all (\<lambda>r'. ts_id r' = ts_id approved_row \<longrightarrow> status r' = ''approved'')
         (table_rows (timesheets (run_script worked_store (AsUser ''alice'' (Resubmit 2 5)))))"
    by (simp only: list_all_iff)
  have 1: "timesheets (run_script worked_store (AsManager ''bob'' (Review (ApproveButton 3) ''fine''))) =
       Some [rejected_row, approved_row, pending_row\<lparr>status := ''approved'', comments := Some ''fine''\<rparr>]"
    by (simp only: approve_on_worked) simp
  have 2: "timesheets (run_script worked_store (AsUser ''alice'' (Resubmit 2 5))) =
       Some [rejected_row, approved_row, pending_row]"
    by (simp only: resubmit_approved_on_worked worked_tables)
  from worked_store_valid worked_reachable w1 w2 1 2 3 show ?thesis by (intro conjI)
qed

theorem resubmit_rejected_timesheet_witness:
  "project_codes worked_store = Some [\<lparr>pc_id = 1, code = ''ENG'', description = Some ''Engineering''\<rparr>]
   \<and> timesheets worked_store = Some [rejected_row, approved_row, pending_row]
   \<and> valid_timesheets worked_store \<and> status rejected_row = ''rejected''
   \<and> user_id rejected_row = 2 \<and> number_input 0 24 6
   \<and> user_dashboard worked_store 2 (Resubmit 1 6) =
       Inr (worked_store\<lparr>timesheets := Some
         [\<lparr>ts_id = 1, user_id = 2, project_code_id = 1, date = ''2024-01-05'', hours = 6,
           status = ''pending'', comments = Some ''missing approval''\<rparr>,
          approved_row, pending_row]\<rparr>)
   \<and> (\<exists>rows'. user_dashboard worked_store 2 (Resubmit (ts_id rejected_row) 6) =
            Inr (worked_store\<lparr>timesheets := Some rows'\<rparr>) \<and> length rows' = 3)"
proof -
  have r: "rejected_row \<in> set [rejected_row, approved_row, pending_row]" by simp
  have s: "status rejected_row = ''rejected''" by (simp add: rejected_row_def)
  have o: "user_id rejected_row = 2" by (simp add: rejected_row_def)
  have w: "number_input 0 24 6" by (simp add: number_input_def)
  from resubmit_rejected_timesheet [OF worked_tables(2) worked_tables(1) worked_store_valid r s o w]
  obtain rows' where
    run: "user_dashboard worked_store 2 (Resubmit (ts_id rejected_row) 6) =
            Inr (worked_store\<lparr>timesheets := Some rows'\<rparr>)"
    and len: "length rows' = length [rejected_row, approved_row, pending_row]"
    by (elim exE conjE)
  from run len have inst: "\<exists>rows'. user_dashboard worked_store 2 (Resubmit (ts_id rejected_row) 6) =
            Inr (worked_store\<lparr>timesheets := Some rows'\<rparr>) \<and> length rows' = 3"
    by (intro exI [of _ rows'] conjI) simp_all
  have id1: "ts_id rejected_row = 1" by (simp add: rejected_row_def)
  have direct: "user_dashboard worked_store 2 (Resubmit 1 6) =
       Inr (worked_store\<lparr>timesheets := Some
         [\<lparr>ts_id = 1, user_id = 2, project_code_id = 1, date = ''2024-01-05'', hours = 6,
           status = ''pending'', comments = Some ''missing approval''\<rparr>,
          approved_row, pending_row]\<rparr>)"
    by (simp add: user_dashboard_resubmit [OF worked_tables(2) worked_tables(1) worked_distinct]
        resubmit_statement [OF worked_tables(1)] committed_def)
       (simp add: store_defs)
  from worked_tables(2) worked_tables(1) worked_store_valid s o w direct inst
  show ?thesis by (intro conjI)
qed

theorem resubmit_update_guarded_by_id_only_witness:
  "timesheets worked_store = Some [rejected_row, approved_row, pending_row]
   \<and> status approved_row = ''approved''
   \<and> resubmit_timesheet worked_store 5 2 =
       Inr (worked_store\<lparr>timesheets := Some
         [rejected_row, approved_row\<lparr>hours := 5, status := ''pending''\<rparr>, pending_row]\<rparr>, 1)
   \<and> user_dashboard worked_store 2 (Resubmit 2 5) = Inr worked_store
   \<and> user_dashboard worked_store 1 (Resubmit 1 5) = Inr worked_store"
proof -
  have h: "(0::real) \<le> 5" by simp
  note G = resubmit_update_guarded_by_id_only [OF worked_tables(1) h]
  have s: "status approved_row = ''approved''" by (simp add: approved_row_def)
  have 1: "resubmit_timesheet worked_store 5 2 =
       Inr (worked_store\<lparr>timesheets := Some
         [rejected_row, approved_row\<lparr>hours := 5, status := ''pending''\<rparr>, pending_row]\<rparr>, 1)"
    by (simp add: resubmit_statement [OF worked_tables(1)]) (simp add: store_defs)
  have pc: "project_codes worked_store \<noteq> None" by (simp add: worked_tables)
  have a: "\<forall>r \<in> set [rejected_row, approved_row, pending_row].
             ts_id r = 2 \<longrightarrow> \<not> (user_id r = 2 \<and> status r = ''rejected'')"
    by (simp add: store_defs)
  have b: "\<forall>r \<in> set [rejected_row, approved_row, pending_row].
             ts_id r = 1 \<longrightarrow> \<not> (user_id r = 1 \<and> status r = ''rejected'')"
    by (simp add: store_defs)
  from G [of 2 2, THEN conjunct2] pc worked_distinct a
  have 2: "user_dashboard worked_store 2 (Resubmit 2 5) = Inr worked_store" by blast
  from G [of 1 1, THEN conjunct2] pc worked_distinct b
  have 3: "user_dashboard worked_store 1 (Resubmit 1 5) = Inr worked_store" by blast
  from worked_tables(1) s 1 2 3 show ?thesis by (intro conjI)
qed

end
